theory Spec2Isabelle
  imports Complex_Main "HOL-Library.AList" "HOL-Library.Log_Nat"
begin

section \<open>JavaScript numbers\<close>

text \<open>
  Prices, quantities, discounts and totals are JavaScript numbers: IEEE 754 doubles. A
  finite double is its rational value; the two zeros are one value (the code divides
  by the constant 100 only and never looks at the sign of a zero).
\<close>

datatype number = Num rat | PosInf | NegInf | NaN

text \<open>
  Rounding of an exact result to a double, to nearest with ties to even:
  \<open>ilog2 x\<close> is the exponent \<open>e\<close> with \<open>2^e \<le> |x| < 2^(e+1)\<close>; a double has 53
  significant bits, so its last bit weighs \<open>2^(e - 52)\<close>, and no less than \<open>2^(-1074)\<close>
  (subnormal numbers); a result that rounds to \<open>2^1024\<close> or beyond is infinite.
\<close>

definition ilog2 :: "rat \<Rightarrow> int" where
  "ilog2 x = (if 1 \<le> \<bar>x\<bar> then bitlen \<lfloor>\<bar>x\<bar>\<rfloor> - 1 else - bitlen (\<lceil>1 / \<bar>x\<bar>\<rceil> - 1))"

definition roundEven :: "rat \<Rightarrow> int" where
  "roundEven y =
     (let f = \<lfloor>y\<rfloor>; d = y - of_int f
      in if d < 1 / 2 then f else if 1 / 2 < d then f + 1 else if even f then f else f + 1)"

definition toDouble :: "rat \<Rightarrow> number" where
  "toDouble x =
     (if x = 0 then Num 0
      else
        (let e = max (ilog2 x) (- 1022);
             q = power_int 2 (e - 52);
             r = of_int (roundEven (x / q)) * q
         in if 2 ^ 1024 \<le> r then PosInf else if r \<le> - (2 ^ 1024) then NegInf else Num r))"

text \<open>The values a computation can hold: the doubles among the values of \<open>number\<close>.\<close>

definition isDouble :: "number \<Rightarrow> bool" where
  "isDouble v = (case v of Num r \<Rightarrow> toDouble r = Num r | _ \<Rightarrow> True)"

fun signOf :: "number \<Rightarrow> int" where
  "signOf (Num a) = (if a < 0 then - 1 else if a = 0 then 0 else 1)"
| "signOf PosInf = 1"
| "signOf NegInf = - 1"
| "signOf NaN = 0"

text \<open>The operators \<open>+\<close>, unary and binary \<open>-\<close>, \<open>*\<close> and \<open>/\<close> on numbers.\<close>

fun js_add :: "number \<Rightarrow> number \<Rightarrow> number" where
  "js_add (Num a) (Num b) = toDouble (a + b)"
| "js_add NaN y = NaN"
| "js_add x NaN = NaN"
| "js_add PosInf NegInf = NaN"
| "js_add NegInf PosInf = NaN"
| "js_add PosInf y = PosInf"
| "js_add x PosInf = PosInf"
| "js_add NegInf y = NegInf"
| "js_add x NegInf = NegInf"

fun js_neg :: "number \<Rightarrow> number" where
  "js_neg (Num a) = Num (- a)"
| "js_neg PosInf = NegInf"
| "js_neg NegInf = PosInf"
| "js_neg NaN = NaN"

definition js_sub :: "number \<Rightarrow> number \<Rightarrow> number" where
  "js_sub x y = js_add x (js_neg y)"

fun js_mul :: "number \<Rightarrow> number \<Rightarrow> number" where
  "js_mul (Num a) (Num b) = toDouble (a * b)"
| "js_mul NaN y = NaN"
| "js_mul x NaN = NaN"
| "js_mul x y =
     (if signOf x * signOf y = 0 then NaN
      else if 0 < signOf x * signOf y then PosInf else NegInf)"

fun js_div :: "number \<Rightarrow> number \<Rightarrow> number" where
  "js_div (Num a) (Num b) =
     (if b = 0 then (if a = 0 then NaN else if 0 < a then PosInf else NegInf)
      else toDouble (a / b))"
| "js_div NaN y = NaN"
| "js_div x NaN = NaN"
| "js_div (Num a) y = Num 0"
| "js_div x (Num b) = (if 0 < signOf x * (if b < 0 then - 1 else 1) then PosInf else NegInf)"
| "js_div x y = NaN"

text \<open>
  \<open>Math.round\<close>: the nearest integer, a half goes up (the result is exact: a double
  beyond \<open>2^52\<close> is an integer already). \<open>Math.max\<close> of two numbers.
\<close>

fun Math_round :: "number \<Rightarrow> number" where
  "Math_round (Num x) = Num (of_int \<lfloor>x + 1 / 2\<rfloor>)"
| "Math_round v = v"

fun Math_max :: "number \<Rightarrow> number \<Rightarrow> number" where
  "Math_max (Num a) (Num b) = Num (max a b)"
| "Math_max NaN y = NaN"
| "Math_max x NaN = NaN"
| "Math_max PosInf y = PosInf"
| "Math_max x PosInf = PosInf"
| "Math_max NegInf y = y"
| "Math_max x NegInf = x"

text \<open>The numbers that count as false in \<open>x || y\<close>, and the test \<open>x > 0\<close>.\<close>

definition falsy :: "number \<Rightarrow> bool" where
  "falsy v = (v = Num 0 \<or> v = NaN)"

fun isPositive :: "number \<Rightarrow> bool" where
  "isPositive (Num a) = (0 < a)"
| "isPositive PosInf = True"
| "isPositive v = False"

text \<open>
  \<open>Array.prototype.sort\<close> with a comparator: a stable sort, here by insertion. An
  element goes behind the elements for which the comparator is positive; a comparator
  value of \<open>NaN\<close> counts as 0. For a comparator that is not consistent the order of the
  result depends on the engine; the properties below use only that the result is a
  rearrangement.
\<close>

fun insertBy :: "('a \<Rightarrow> 'a \<Rightarrow> number) \<Rightarrow> 'a \<Rightarrow> 'a list \<Rightarrow> 'a list" where
  "insertBy cmp x [] = [x]"
| "insertBy cmp x (y # ys) =
     (if isPositive (cmp x y) then y # insertBy cmp x ys else x # y # ys)"

definition Array_sort :: "('a \<Rightarrow> 'a \<Rightarrow> number) \<Rightarrow> 'a list \<Rightarrow> 'a list" where
  "Array_sort cmp xs = foldr (insertBy cmp) xs []"

section \<open>JavaScript strings\<close>

text \<open>
  A string is the list of its bytes in UTF-8. \<open>String.prototype.trim\<close> and
  \<open>String.prototype.toLowerCase\<close> follow the Unicode tables of the engine; the
  components below take the two functions as parameters \<open>trim\<close> and \<open>toLowerCase\<close>,
  and every property is proved for all functions. On strings of ASCII characters they
  are the following two, which the examples use.
\<close>

definition isAsciiWhiteSpace :: "char \<Rightarrow> bool" where
  "isAsciiWhiteSpace c = (of_char c \<in> {9, 10, 11, 12, 13, 32 :: nat})"

definition asciiTrim :: "string \<Rightarrow> string" where
  "asciiTrim s = rev (dropWhile isAsciiWhiteSpace (rev (dropWhile isAsciiWhiteSpace s)))"

definition asciiLowerCase :: "string \<Rightarrow> string" where
  "asciiLowerCase s =
     map (\<lambda>c. let n = of_char c :: nat in if 65 \<le> n \<and> n \<le> 90 then char_of (n + 32) else c) s"

section \<open>JavaScript dates\<close>

text \<open>
  A \<open>Date\<close> holds a time value: the milliseconds since the epoch, UTC. The calendar
  methods go through local time as ECMAScript defines them, by the offset of the time
  zone: \<open>offsetAt z t\<close> is the offset in force at the instant \<open>t\<close>
  (\<open>LocalTZA(t, true)\<close>), \<open>offsetOfLocal z t\<close> the offset by which the local time
  value \<open>t\<close> is read (\<open>LocalTZA(t, false)\<close>). The dates of the application are valid
  and far inside the range of \<open>Date\<close>.
\<close>

definition msPerDay :: int where
  "msPerDay = 24 * 60 * 60 * 1000"

record zone =
  offsetAt :: "int \<Rightarrow> int"
  offsetOfLocal :: "int \<Rightarrow> int"

definition LocalTime :: "zone \<Rightarrow> int \<Rightarrow> int" where
  "LocalTime z t = t + offsetAt z t"

definition UTC :: "zone \<Rightarrow> int \<Rightarrow> int" where
  "UTC z t = t - offsetOfLocal z t"

definition Day :: "int \<Rightarrow> int" where
  "Day t = t div msPerDay"

definition TimeWithinDay :: "int \<Rightarrow> int" where
  "TimeWithinDay t = t mod msPerDay"

text \<open>The day of the week, 0 for Sunday: the epoch day was a Thursday.\<close>

definition WeekDay :: "int \<Rightarrow> int" where
  "WeekDay t = (Day t + 4) mod 7"

definition HourFromTime :: "int \<Rightarrow> int" where
  "HourFromTime t = (t div (60 * 60 * 1000)) mod 24"

definition MinFromTime :: "int \<Rightarrow> int" where
  "MinFromTime t = (t div (60 * 1000)) mod 60"

definition MakeTime :: "int \<Rightarrow> int \<Rightarrow> int \<Rightarrow> int \<Rightarrow> int" where
  "MakeTime h m s ms = h * (60 * 60 * 1000) + m * (60 * 1000) + s * 1000 + ms"

definition MakeDate :: "int \<Rightarrow> int \<Rightarrow> int" where
  "MakeDate day time = day * msPerDay + time"

definition getDay :: "zone \<Rightarrow> int \<Rightarrow> int" where
  "getDay z t = WeekDay (LocalTime z t)"

definition getHours :: "zone \<Rightarrow> int \<Rightarrow> int" where
  "getHours z t = HourFromTime (LocalTime z t)"

definition getMinutes :: "zone \<Rightarrow> int \<Rightarrow> int" where
  "getMinutes z t = MinFromTime (LocalTime z t)"

text \<open>
  \<open>d.setDate(d.getDate() + k)\<close> on a date of time value \<open>t\<close>: \<open>setDate\<close> keeps the
  local time of day and takes the day \<open>MakeDay(year, month, getDate() + k)\<close>, which is
  the local day of \<open>t\<close> plus \<open>k\<close>, whatever the month. \<open>setHours(h, m, s, ms)\<close> keeps
  the local day. Both return to a time value through \<open>UTC\<close>.
\<close>

definition setDateBy :: "zone \<Rightarrow> int \<Rightarrow> int \<Rightarrow> int" where
  "setDateBy z t k =
     (let local = LocalTime z t
      in UTC z (MakeDate (Day local + k) (TimeWithinDay local)))"

definition setHours :: "zone \<Rightarrow> int \<Rightarrow> int \<Rightarrow> int \<Rightarrow> int \<Rightarrow> int \<Rightarrow> int" where
  "setHours z t h m s ms =
     (let local = LocalTime z t
      in UTC z (MakeDate (Day local) (MakeTime h m s ms)))"

text \<open>
  A date string \<open>YYYY-MM-DD\<close> is the number of its day (day 0 is 1970-01-01), a time
  string \<open>HH:MM\<close> the pair of its numbers. \<open>new Date('YYYY-MM-DD')\<close> is the midnight of
  that day in UTC; \<open>toISOString().split('T')[0]\<close> is the day of a time value in UTC.
\<close>

definition parseDateOnly :: "int \<Rightarrow> int" where
  "parseDateOnly day = MakeDate day 0"

definition isoDateOf :: "int \<Rightarrow> int" where
  "isoDateOf t = Day t"

definition getTodayDateString :: "zone \<Rightarrow> int \<Rightarrow> int" where
  "getTodayDateString z now = Day (LocalTime z now)"

definition getCurrentTimeString :: "zone \<Rightarrow> int \<Rightarrow> int \<times> int" where
  "getCurrentTimeString z now = (getHours z now, getMinutes z now)"

text \<open>
  Three zones for the examples: a zone with one offset at all times; New York around
  the end of daylight saving time on 3 November 2024, 06:00 UTC (a local time that
  occurs twice is read by the earlier offset); and Tehran around the start of daylight
  saving time on 21 March 2021, 20:30 UTC, when the clocks went from Monday 22 March
  00:00 to 01:00 (a local time that is skipped is read by the offset before the change).
\<close>

definition hour :: int where
  "hour = 60 * 60 * 1000"

definition fixedZone :: "int \<Rightarrow> zone" where
  "fixedZone c = \<lparr>offsetAt = (\<lambda>t. c), offsetOfLocal = (\<lambda>t. c)\<rparr>"

definition newYork :: zone where
  "newYork =
     \<lparr>offsetAt = (\<lambda>t. if t < 1730613600000 then - 4 * hour else - 5 * hour),
      offsetOfLocal = (\<lambda>t. if t < 1730613600000 - 4 * hour then - 4 * hour else - 5 * hour)\<rparr>"

definition tehran :: zone where
  "tehran =
     \<lparr>offsetAt = (\<lambda>t. if t < 1616358600000 then 12600000 else 16200000),
      offsetOfLocal = (\<lambda>t. if t < 1616358600000 + 16200000 then 12600000 else 16200000)\<rparr>"

section \<open>Data model\<close>

text \<open>
  The records follow the shapes the components read and write. Timestamps are the
  millisecond values \<open>Date.getTime()\<close> returns (the ISO strings the code stores are
  parsed back to them before every comparison). Prices, quantities, discounts and totals
  are numbers. Field names that several shapes share, or that clash with a constant of
  HOL, carry a prefix.
\<close>

datatype discount_type = Percent | Amount

record serviceItem =
  item_id :: string
  serviceId :: string
  item_name :: string
  price :: number
  quantity :: number
  variantName :: "string option"

text \<open>
  \<open>billData\<close> is \<open>Omit<Bill, 'id'>\<close>: what remains of a Bill or Booking after
  \<open>const { id, ...billData } = booking\<close>. A Booking is a Bill with \<open>createdAt\<close>;
  the field is optional at run time, so it is an option here.
\<close>

record billData =
  customerName :: string
  date :: int
  items :: "serviceItem list"
  bill_total :: number
  discountValue :: number
  discountType :: discount_type
  bill_note :: string
  createdAt :: "int option"

record bill = billData +
  bill_id :: string

type_synonym booking = bill

section \<open>Collections (hooks)\<close>

definition addBooking :: "string \<Rightarrow> int \<Rightarrow> billData \<Rightarrow> booking list \<Rightarrow> booking list" where
  "addBooking newId now b prev =
     (billData.extend (b\<lparr>createdAt := Some now\<rparr>) (bill.fields newId)) # prev"

definition updateBooking :: "booking \<Rightarrow> booking list \<Rightarrow> booking list" where
  "updateBooking updatedBooking prev =
     map (\<lambda>b. if bill_id b = bill_id updatedBooking then updatedBooking else b) prev"

definition deleteBooking :: "string \<Rightarrow> booking list \<Rightarrow> booking list" where
  "deleteBooking i prev = filter (\<lambda>b. bill_id b \<noteq> i) prev"

text \<open>
  Modelled from the spec: \<open>addBill\<close> of the \<open>useBills\<close> hook, which is not among the
  sources. Section 4.1: add(recordWithoutId) generates a unique id and stores the record.
  The generated id is the parameter \<open>newId\<close>; the record is put in front, as the sibling
  \<open>addBooking\<close> does. The handlers below take \<open>addBill\<close> as a parameter, the way the
  component takes it from the hook; this is the instance the spec describes.
\<close>

definition specAddBill :: "string \<Rightarrow> billData \<Rightarrow> bill list \<Rightarrow> bill list" where
  "specAddBill newId b prev = (billData.extend b (bill.fields newId)) # prev"

section \<open>Booking due-notification engine (App)\<close>

record app =
  bills :: "bill list"
  bookings :: "booking list"
  dueBookingQueue :: "booking list"
  notifiedBookingIds :: "string set"
  isSnoozeMode :: bool
  snoozeDuration :: "int option"
  showDeleteConfirmForDue :: bool

definition isDue :: "int \<Rightarrow> booking \<Rightarrow> bool" where
  "isDue now b = (date b \<le> now)"

definition isRecent :: "int \<Rightarrow> booking \<Rightarrow> bool" where
  "isRecent now b = (date b > now - 24 * 60 * 60 * 1000)"

text \<open>The updater passed to \<open>setDueBookingQueue\<close> inside \<open>checkBookings\<close>.\<close>

definition enqueueDue :: "booking \<Rightarrow> booking list \<Rightarrow> booking list" where
  "enqueueDue b prevQueue =
     (if list_ex (\<lambda>x. bill_id x = bill_id b) prevQueue then prevQueue else prevQueue @ [b])"

text \<open>
  \<open>bookings.forEach\<close> of \<open>checkBookings\<close>. The test \<open>notifiedBookingIds.has\<close> reads the
  set the effect closed over (\<open>seen\<close>), while both state updates are functional and
  apply to the latest state.
\<close>

fun checkLoop :: "int \<Rightarrow> string set \<Rightarrow> booking list \<Rightarrow> app \<Rightarrow> app" where
  "checkLoop now seen [] s = s"
| "checkLoop now seen (b # bs) s =
     checkLoop now seen bs
       (if isDue now b \<and> isRecent now b \<and> bill_id b \<notin> seen
        then s\<lparr>dueBookingQueue := enqueueDue b (dueBookingQueue s),
               notifiedBookingIds := insert (bill_id b) (notifiedBookingIds s)\<rparr>
        else s)"

definition checkBookings :: "int \<Rightarrow> app \<Rightarrow> app" where
  "checkBookings now s = checkLoop now (notifiedBookingIds s) (bookings s) s"

definition currentDueBooking :: "app \<Rightarrow> booking option" where
  "currentDueBooking s = (case dueBookingQueue s of [] \<Rightarrow> None | b # _ \<Rightarrow> Some b)"

definition processNextBooking :: "app \<Rightarrow> app" where
  "processNextBooking s =
     s\<lparr>dueBookingQueue := drop 1 (dueBookingQueue s),
       isSnoozeMode := False,
       snoozeDuration := None,
       showDeleteConfirmForDue := False\<rparr>"

definition confirmDueBooking :: "(billData \<Rightarrow> bill list \<Rightarrow> bill list) \<Rightarrow> int \<Rightarrow> app \<Rightarrow> app" where
  "confirmDueBooking addBill now s =
     (case currentDueBooking s of
        None \<Rightarrow> s
      | Some cur \<Rightarrow>
          (let billData = billData.truncate cur;
               newBill = billData\<lparr>date := now\<rparr>
           in processNextBooking
                (s\<lparr>bills := addBill newBill (bills s),
                   bookings := deleteBooking (bill_id cur) (bookings s)\<rparr>)))"

text \<open>
  \<open>handleConvertToBill\<close>, the booking-list path; \<open>confirmed\<close> is the answer to
  \<open>window.confirm\<close>.
\<close>

definition handleConvertToBill ::
  "(billData \<Rightarrow> bill list \<Rightarrow> bill list) \<Rightarrow> bool \<Rightarrow> int \<Rightarrow> booking \<Rightarrow> app \<Rightarrow> app" where
  "handleConvertToBill addBill confirmed now booking s =
     (if confirmed then
        (let billData = billData.truncate booking;
             newBill = billData\<lparr>date := now\<rparr>
         in s\<lparr>bills := addBill newBill (bills s),
              bookings := deleteBooking (bill_id booking) (bookings s)\<rparr>)
      else s)"

text \<open>
  \<open>confirmSnooze\<close>: the guard \<open>currentDueBooking && snoozeDuration\<close> is false for an
  empty queue, for \<open>null\<close> and for the number 0.
\<close>

definition openSnoozeOptions :: "app \<Rightarrow> app" where
  "openSnoozeOptions s = s\<lparr>isSnoozeMode := True\<rparr>"

definition cancelSnooze :: "app \<Rightarrow> app" where
  "cancelSnooze s = s\<lparr>isSnoozeMode := False, snoozeDuration := None\<rparr>"

definition confirmSnooze :: "int \<Rightarrow> app \<Rightarrow> app" where
  "confirmSnooze now s =
     (case (currentDueBooking s, snoozeDuration s) of
        (Some cur, Some d) \<Rightarrow>
          if d = 0 then s
          else
            (let newDate = now + d * 60000;
                 updatedBooking = cur\<lparr>date := newDate\<rparr>
             in processNextBooking
                  (s\<lparr>bookings := updateBooking updatedBooking (bookings s),
                     notifiedBookingIds := notifiedBookingIds s - {bill_id cur}\<rparr>))
      | _ \<Rightarrow> s)"

definition deleteDueBooking :: "app \<Rightarrow> app" where
  "deleteDueBooking s =
     (case currentDueBooking s of
        None \<Rightarrow> s
      | Some cur \<Rightarrow> processNextBooking (s\<lparr>bookings := deleteBooking (bill_id cur) (bookings s)\<rparr>))"

text \<open>The state before the first poll: the queue is empty, the ledger comes from the store.\<close>

definition initialApp :: "bill list \<Rightarrow> booking list \<Rightarrow> string set \<Rightarrow> app" where
  "initialApp bs bks stored =
     \<lparr>bills = bs, bookings = bks, dueBookingQueue = [], notifiedBookingIds = stored,
      isSnoozeMode = False, snoozeDuration = None, showDeleteConfirmForDue = False\<rparr>"

text \<open>
  The steps of the engine: a poll tick and the handlers behind the buttons of the
  notification popup. \<open>Confirm\<close> is the button that turns the booking into a bill
  (\<open>confirmDueBooking\<close>). \<open>OpenSnoozeOptions\<close> is the button labelled keep
  (\<open>openSnoozeOptions\<close>); it shows the durations (5, 10, 15, 30 minutes), of which
  \<open>SetSnoozeDuration\<close> chooses one, and the two buttons \<open>CancelSnooze\<close> and \<open>Snooze\<close>
  (\<open>confirmSnooze\<close>). \<open>SetShowDeleteConfirm\<close> opens or closes the question before
  \<open>Delete\<close> (\<open>deleteDueBooking\<close>). \<open>processNextBooking\<close> is no step of its own: it
  runs at the end of \<open>confirmDueBooking\<close>, \<open>confirmSnooze\<close> and \<open>deleteDueBooking\<close>.
  The last four steps are the operations of the booking list and of the editor on the
  collection, which can happen between ticks.
\<close>

datatype action =
    Tick int
  | Confirm int string
  | OpenSnoozeOptions
  | CancelSnooze
  | SetSnoozeDuration int
  | Snooze int
  | SetShowDeleteConfirm bool
  | Delete
  | AddBooking string int billData
  | UpdateBooking booking
  | DeleteBooking string
  | ConvertToBill bool int string booking

fun step :: "action \<Rightarrow> app \<Rightarrow> app" where
  "step (Tick now) s = checkBookings now s"
| "step (Confirm now newId) s = confirmDueBooking (specAddBill newId) now s"
| "step OpenSnoozeOptions s = openSnoozeOptions s"
| "step CancelSnooze s = cancelSnooze s"
| "step (SetSnoozeDuration mins) s = s\<lparr>snoozeDuration := Some mins\<rparr>"
| "step (Snooze now) s = confirmSnooze now s"
| "step (SetShowDeleteConfirm b) s = s\<lparr>showDeleteConfirmForDue := b\<rparr>"
| "step Delete s = deleteDueBooking s"
| "step (AddBooking newId now b) s = s\<lparr>bookings := addBooking newId now b (bookings s)\<rparr>"
| "step (UpdateBooking b) s = s\<lparr>bookings := updateBooking b (bookings s)\<rparr>"
| "step (DeleteBooking i) s = s\<lparr>bookings := deleteBooking i (bookings s)\<rparr>"
| "step (ConvertToBill confirmed now newId b) s =
     handleConvertToBill (specAddBill newId) confirmed now b s"

fun run :: "action list \<Rightarrow> app \<Rightarrow> app" where
  "run [] s = s"
| "run (a # as) s = run as (step a s)"

text \<open>The condition under which \<open>checkBookings\<close> surfaces a booking.\<close>

definition surfaces :: "int \<Rightarrow> string set \<Rightarrow> booking \<Rightarrow> bool" where
  "surfaces now seen b = (isDue now b \<and> isRecent now b \<and> bill_id b \<notin> seen)"

text \<open>
  What holds of the queue in every state the engine reaches: no id occurs twice, and
  every queued id is in the ledger.
\<close>

definition queue_ok :: "app \<Rightarrow> bool" where
  "queue_ok s = (distinct (map bill_id (dueBookingQueue s)) \<and>
                 bill_id ` set (dueBookingQueue s) \<subseteq> notifiedBookingIds s)"


text \<open>A booking for the examples: only the id and the date matter to the engine.\<close>

definition sampleBooking :: "string \<Rightarrow> int \<Rightarrow> booking" where
  "sampleBooking i d =
     \<lparr>customerName = ''Anna'', date = d, items = [], bill_total = Num 0,
      discountValue = Num 0,
      discountType = Amount, bill_note = [], createdAt = Some 0, bill_id = i\<rparr>"





text \<open>
  An example state: one booking due at hour 100, surfaced by the tick at hour 100, with a
  snooze of 10 minutes chosen.
\<close>

definition snoozeExample :: app where
  "snoozeExample =
     step (SetSnoozeDuration 10)
       (step (Tick (100 * hour)) (initialApp [] [sampleBooking ''b'' (100 * hour)] {}))"


section \<open>Bill editor (BillEditor)\<close>

text \<open>The catalogue shapes of \<open>types.ts\<close>, as the editor reads them.\<close>

datatype price_type = Fixed | Variable

record variant =
  variant_id :: string
  variant_name :: string
  variant_price :: number

record predefinedService =
  service_id :: string
  service_name :: string
  service_price :: number
  priceType :: price_type
  variants :: "variant list option"
  allowQuantity :: bool

text \<open>
  The state variables of the component that the handlers below read and write. The
  prefix keeps them apart from the fields of the record the editor produces. \<open>ed_date\<close>
  is the value of the date input, \<open>ed_time\<close> the value of the time input (both inputs
  are required, so a submitted form has them).
\<close>

record editorState =
  ed_customerName :: string
  ed_date :: int
  ed_time :: "int \<times> int"
  ed_items :: "serviceItem list"
  ed_note :: string
  ed_discountValue :: number
  ed_discountType :: discount_type

text \<open>The empty row of a new bill and of \<open>addItem\<close>; \<open>tempId\<close> is \<open>temp-${Date.now()}\<close>.\<close>

definition emptyItem :: "string \<Rightarrow> serviceItem" where
  "emptyItem tempId =
     \<lparr>item_id = tempId, serviceId = [], item_name = [], price = Num 0, quantity = Num 1,
      variantName = None\<rparr>"

text \<open>
  The effect on \<open>bill\<close>, in the zone \<open>z\<close> at the clock \<open>now\<close>: the form of a new
  record, or the form loaded from a stored one (\<open>item.quantity || 1\<close>,
  \<open>bill.discountValue || 0\<close>; the date field is the day of the record in UTC, the time
  field its local time).
\<close>

definition enrichedItems :: "serviceItem list \<Rightarrow> serviceItem list" where
  "enrichedItems its =
     map (\<lambda>item. item\<lparr>quantity := (if falsy (quantity item) then Num 1 else quantity item)\<rparr>) its"

definition initEditor :: "zone \<Rightarrow> string \<Rightarrow> int \<Rightarrow> bill option \<Rightarrow> editorState" where
  "initEditor z tempId now bill =
     (case bill of
        Some b \<Rightarrow>
          \<lparr>ed_customerName = customerName b,
           ed_date = isoDateOf (date b),
           ed_time = (getHours z (date b), getMinutes z (date b)),
           ed_items = enrichedItems (items b),
           ed_note = bill_note b,
           ed_discountValue = (if falsy (discountValue b) then Num 0 else discountValue b),
           ed_discountType = discountType b\<rparr>
      | None \<Rightarrow>
          \<lparr>ed_customerName = [],
           ed_date = getTodayDateString z now,
           ed_time = getCurrentTimeString z now,
           ed_items = [emptyItem tempId],
           ed_note = [],
           ed_discountValue = Num 0,
           ed_discountType = Amount\<rparr>)"

text \<open>
  The row handlers are bound to the rows the component renders, so \<open>index\<close> is the
  index of an existing row; for any other index the model leaves the rows as they are.
\<close>

definition handleItemChange ::
  "predefinedService list \<Rightarrow> serviceItem list \<Rightarrow> nat \<Rightarrow> string \<Rightarrow> serviceItem list" where
  "handleItemChange services its index selectedServiceId =
     (case find (\<lambda>s. service_id s = selectedServiceId) services of
        None \<Rightarrow> its
      | Some service \<Rightarrow>
          if index < length its then
            (let item = (its ! index)\<lparr>serviceId := service_id service,
                                       item_name := service_name service,
                                       quantity := Num 1\<rparr>;
                 item' = (case (priceType service, variants service) of
                            (Variable, Some (defaultVariant # _)) \<Rightarrow>
                              item\<lparr>price := variant_price defaultVariant,
                                   variantName := Some (variant_name defaultVariant)\<rparr>
                          | _ \<Rightarrow> item\<lparr>price := service_price service, variantName := None\<rparr>)
             in its[index := item'])
          else its)"

definition handleVariantChange ::
  "predefinedService list \<Rightarrow> serviceItem list \<Rightarrow> nat \<Rightarrow> string \<Rightarrow> serviceItem list" where
  "handleVariantChange services its index vName =
     (if index < length its then
        (let item = its ! index in
         case find (\<lambda>s. service_id s = serviceId item) services of
           None \<Rightarrow> its
         | Some service \<Rightarrow>
             (case variants service of
                None \<Rightarrow> its
              | Some vs \<Rightarrow>
                  (case find (\<lambda>v. variant_name v = vName) vs of
                     None \<Rightarrow> its
                   | Some v \<Rightarrow>
                       its[index := item\<lparr>price := js_mul (variant_price v) (quantity item),
                                          variantName := Some (variant_name v)\<rparr>])))
      else its)"

text \<open>
  \<open>newQuantity\<close> is \<open>value === '' ? 0 : parseInt(value)\<close>, the number the handler
  starts from; \<open>NaN\<close> is stored as 0.
\<close>

definition handleQuantityChange ::
  "predefinedService list \<Rightarrow> serviceItem list \<Rightarrow> nat \<Rightarrow> number \<Rightarrow> serviceItem list" where
  "handleQuantityChange services its index newQuantity =
     (if index < length its then
        (let item = its ! index in
         case find (\<lambda>s. service_id s = serviceId item) services of
           None \<Rightarrow> its
         | Some service \<Rightarrow>
             (let q = (if newQuantity = NaN then Num 0 else newQuantity);
                  unitPrice =
                    (case (priceType service, variants service) of
                       (Variable, Some vs) \<Rightarrow>
                         (case find (\<lambda>v. Some (variant_name v) = variantName item) vs of
                            Some v \<Rightarrow> variant_price v
                          | None \<Rightarrow> service_price service)
                     | _ \<Rightarrow> service_price service)
              in its[index := item\<lparr>quantity := q, price := js_mul unitPrice q\<rparr>]))
      else its)"

definition addItem :: "string \<Rightarrow> serviceItem list \<Rightarrow> serviceItem list" where
  "addItem tempId its = its @ [emptyItem tempId]"

definition removeItem :: "nat \<Rightarrow> serviceItem list \<Rightarrow> serviceItem list" where
  "removeItem index its = take index its @ drop (Suc index) its"

definition calculateSubtotal :: "serviceItem list \<Rightarrow> number" where
  "calculateSubtotal its = foldl (\<lambda>sum item. js_add sum (price item)) (Num 0) its"

definition calculateDiscountAmount :: "serviceItem list \<Rightarrow> discount_type \<Rightarrow> number \<Rightarrow> number" where
  "calculateDiscountAmount its dType dValue =
     (let subtotal = calculateSubtotal its in
      if dType = Percent then Math_round (js_mul subtotal (js_div dValue (Num 100)))
      else dValue)"

definition calculateTotal :: "serviceItem list \<Rightarrow> discount_type \<Rightarrow> number \<Rightarrow> number" where
  "calculateTotal its dType dValue =
     (let subtotal = calculateSubtotal its;
          discount = calculateDiscountAmount its dType dValue
      in Math_max (Num 0) (js_sub subtotal discount))"

text \<open>
  \<open>handleSubmit\<close> in the zone \<open>z\<close> at the clock \<open>now\<close>. Each \<open>alert\<close> followed by
  \<open>return\<close> is an \<open>Inl\<close>; \<open>Inr\<close> is the record passed to \<open>onSave\<close>. \<open>finalDate\<close> is
  \<open>new Date(date)\<close> after \<open>setHours(hours, minutes, 0, 0)\<close>.
\<close>

datatype alert = MissingCustomerName | NoValidService | BookingInPast

definition finalDateOf :: "zone \<Rightarrow> editorState \<Rightarrow> int" where
  "finalDateOf z st =
     (let (hours, minutes) = ed_time st
      in setHours z (parseDateOnly (ed_date st)) hours minutes 0 0)"

definition handleSubmit ::
  "(string \<Rightarrow> string) \<Rightarrow> zone \<Rightarrow> bool \<Rightarrow> bill option \<Rightarrow> int \<Rightarrow> editorState \<Rightarrow> alert + bill" where
  "handleSubmit trim z isBooking bill now st =
     (let finalItems = filter (\<lambda>item. serviceId item \<noteq> []) (ed_items st) in
      if trim (ed_customerName st) = [] then Inl MissingCustomerName
      else if length finalItems = 0 then Inl NoValidService
      else
        (let finalDate = finalDateOf z st in
         if isBooking \<and> finalDate < now \<and> now - finalDate > 60000 then Inl BookingInPast
         else
           Inr \<lparr>customerName = trim (ed_customerName st),
                date = finalDate,
                items = finalItems,
                bill_total = calculateTotal (ed_items st) (ed_discountType st) (ed_discountValue st),
                discountValue = ed_discountValue st,
                discountType = ed_discountType st,
                bill_note = trim (ed_note st),
                createdAt = (case bill of
                               Some b \<Rightarrow> if isBooking then createdAt b else None
                             | None \<Rightarrow> None),
                bill_id = (case bill of Some b \<Rightarrow> bill_id b | None \<Rightarrow> [])\<rparr>))"

text \<open>
  The rows an editor session can hold: it starts from the empty row of a new record or
  from a stored record whose items all carry a service (as the items of every record
  the editor saves do), and goes on by the row handlers.
\<close>

inductive editorItems :: "predefinedService list \<Rightarrow> serviceItem list \<Rightarrow> bool"
  for services :: "predefinedService list" where
  new_rows: "editorItems services [emptyItem tempId]"
| loaded_rows: "\<forall>item\<in>set its. serviceId item \<noteq> [] \<Longrightarrow> editorItems services (enrichedItems its)"
| item_changed: "editorItems services its \<Longrightarrow> index < length its \<Longrightarrow>
     editorItems services (handleItemChange services its index sel)"
| variant_changed: "editorItems services its \<Longrightarrow> index < length its \<Longrightarrow>
     editorItems services (handleVariantChange services its index vName)"
| quantity_changed: "editorItems services its \<Longrightarrow> index < length its \<Longrightarrow>
     editorItems services (handleQuantityChange services its index newQuantity)"
| item_added: "editorItems services its \<Longrightarrow> editorItems services (addItem tempId its)"
| item_removed: "editorItems services its \<Longrightarrow> editorItems services (removeItem index its)"

text \<open>Rows without a selected service carry no price.\<close>

definition rows_ok :: "serviceItem list \<Rightarrow> bool" where
  "rows_ok its = (\<forall>item\<in>set its. serviceId item = [] \<longrightarrow> price item = Num 0)"

text \<open>
  The sum of the prices of a list of items as the claim reads it: the items added in
  order, in double arithmetic, from 0.
\<close>

definition sumOfPrices :: "serviceItem list \<Rightarrow> number" where
  "sumOfPrices its = foldl js_add (Num 0) (map price its)"

text \<open>The scenario of the spec: Service A at the fixed price 100000.\<close>

definition serviceA :: predefinedService where
  "serviceA =
     \<lparr>service_id = ''svc-A'', service_name = ''Service A'', service_price = Num 100000,
      priceType = Fixed, variants = None, allowQuantity = True\<rparr>"

definition twoServiceA :: "serviceItem list" where
  "twoServiceA =
     handleQuantityChange [serviceA]
       (handleItemChange [serviceA] [emptyItem ''temp-1''] 0 ''svc-A'') 0 (Num 2)"

text \<open>
  A form for the examples, opened for a new record in the zone \<open>z\<close> at the clock
  \<open>now\<close>, with the customer name and the rows of the scenario filled in.
\<close>

definition scenarioForm :: "zone \<Rightarrow> int \<Rightarrow> discount_type \<Rightarrow> number \<Rightarrow> editorState" where
  "scenarioForm z now dType dValue =
     (initEditor z ''temp-1'' now None)
       \<lparr>ed_customerName := ''Anna'', ed_items := twoServiceA,
        ed_discountValue := dValue, ed_discountType := dType\<rparr>"

text \<open>One row with a service at the price 50.\<close>

definition service50 :: predefinedService where
  "service50 =
     \<lparr>service_id = ''svc-50'', service_name = ''Service 50'', service_price = Num 50,
      priceType = Fixed, variants = None, allowQuantity = False\<rparr>"

definition oneService50 :: "serviceItem list" where
  "oneService50 = handleItemChange [service50] [emptyItem ''temp-1''] 0 ''svc-50''"

text \<open>
  The form of a new booking opened at UTC-5 on 10 June 2024 (day 19884) at 14:30 local
  time, 19:30 UTC, with the time field set to 15:30, one hour ahead.
\<close>

definition bookingAhead :: editorState where
  "bookingAhead =
     (scenarioForm (fixedZone (- 5 * hour)) 1718047800000 Amount (Num 0))\<lparr>ed_time := (15, 30)\<rparr>"

section \<open>Revenue of the current week (dateUtils, Dashboard)\<close>

text \<open>
  The two bounds \<open>isWithinThisWeek\<close> computes from the clock \<open>today\<close> in the zone
  \<open>z\<close>: \<open>startOfWeek\<close> is a copy of \<open>today\<close> after
  \<open>setDate(today.getDate() - currentDay + 1)\<close> and \<open>setHours(0, 0, 0, 0)\<close>,
  \<open>endOfWeek\<close> a copy of \<open>startOfWeek\<close> after \<open>setDate(startOfWeek.getDate() + 7)\<close>.
\<close>

definition startOfWeek :: "zone \<Rightarrow> int \<Rightarrow> int" where
  "startOfWeek z today =
     (let currentDay = (if getDay z today = 0 then 7 else getDay z today)
      in setHours z (setDateBy z today (- currentDay + 1)) 0 0 0 0)"

definition endOfWeek :: "zone \<Rightarrow> int \<Rightarrow> int" where
  "endOfWeek z today = setDateBy z (startOfWeek z today) 7"

definition isWithinThisWeek :: "zone \<Rightarrow> int \<Rightarrow> int \<Rightarrow> bool" where
  "isWithinThisWeek z today d = (d \<ge> startOfWeek z today \<and> d < endOfWeek z today)"

definition revenueThisWeek :: "zone \<Rightarrow> int \<Rightarrow> bill list \<Rightarrow> number" where
  "revenueThisWeek z today bs =
     foldl (\<lambda>sum bill. js_add sum (bill_total bill)) (Num 0)
       (filter (\<lambda>bill. isWithinThisWeek z today (date bill)) bs)"

text \<open>
  The week as the claim words it: \<open>mondayLocal\<close> is the local time value of Monday
  00:00:00 of the week of \<open>today\<close>; the instant a local time value denotes is its
  \<open>UTC\<close>.
\<close>

definition mondayLocal :: "zone \<Rightarrow> int \<Rightarrow> int" where
  "mondayLocal z today =
     MakeDate (Day (LocalTime z today) - (WeekDay (LocalTime z today) + 6) mod 7) 0"

section \<open>Backup import (App.handleFileUpload)\<close>

text \<open>
  The value \<open>JSON.parse\<close> returns. In an object the last of several equal keys wins,
  as \<open>JSON.parse\<close> has it.
\<close>

datatype json =
    JNull
  | JBool bool
  | JNum rat
  | JStr string
  | JArr "json list"
  | JObj "(string \<times> json) list"

fun truthy :: "json \<Rightarrow> bool" where
  "truthy JNull = False"
| "truthy (JBool b) = b"
| "truthy (JNum n) = (n \<noteq> 0)"
| "truthy (JStr s) = (s \<noteq> [])"
| "truthy (JArr xs) = True"
| "truthy (JObj kvs) = True"

text \<open>
  \<open>getProp v k\<close> is \<open>v.k\<close> for the keys the import reads, \<open>None\<close> for \<open>undefined\<close>. On
  \<open>null\<close> the read throws; \<open>handleFileUpload\<close> below treats that case before it reads.
\<close>

fun getProp :: "json \<Rightarrow> string \<Rightarrow> json option" where
  "getProp (JObj kvs) k = map_of (rev kvs) k"
| "getProp v k = None"

fun isArray :: "json option \<Rightarrow> bool" where
  "isArray (Some (JArr xs)) = True"
| "isArray v = False"

text \<open>
  The functions the handler takes from the hooks \<open>useBills\<close>, \<open>useServices\<close> and
  \<open>useShopSettings\<close>, as updates of a state \<open>'st\<close>.
\<close>

record 'st importHooks =
  restoreBills :: "json list \<Rightarrow> 'st \<Rightarrow> 'st"
  restoreServices :: "json list \<Rightarrow> 'st \<Rightarrow> 'st"
  restoreCategories :: "json list \<Rightarrow> 'st \<Rightarrow> 'st"
  updateShopName :: "json \<Rightarrow> 'st \<Rightarrow> 'st"
  updateBillTheme :: "json \<Rightarrow> 'st \<Rightarrow> 'st"

text \<open>The three alerts of the handler.\<close>

datatype notice = Restored | InvalidFile | ReadError

text \<open>\<open>if (data.categories && Array.isArray(data.categories))\<close>\<close>

definition applyCategories :: "'st importHooks \<Rightarrow> json \<Rightarrow> 'st \<Rightarrow> 'st" where
  "applyCategories h data s =
     (case getProp data ''categories'' of
        Some (JArr cs) \<Rightarrow> restoreCategories h cs s
      | _ \<Rightarrow> s)"

text \<open>\<open>if (data.settings) { if (data.settings.shopName) ...; if (data.settings.billTheme) ... }\<close>\<close>

definition applySettings :: "'st importHooks \<Rightarrow> json \<Rightarrow> 'st \<Rightarrow> 'st" where
  "applySettings h data s =
     (case getProp data ''settings'' of
        None \<Rightarrow> s
      | Some settings \<Rightarrow>
          if truthy settings then
            (let s1 = (case getProp settings ''shopName'' of
                         Some n \<Rightarrow> if truthy n then updateShopName h n s else s
                       | None \<Rightarrow> s)
             in case getProp settings ''billTheme'' of
                  Some t \<Rightarrow> if truthy t then updateBillTheme h t s1 else s1
                | None \<Rightarrow> s1)
          else s)"

text \<open>
  \<open>reader.onload\<close> of \<open>handleFileUpload\<close>. \<open>parsed\<close> is \<open>None\<close> when \<open>JSON.parse\<close>
  throws; \<open>confirmed\<close> is the answer to \<open>window.confirm\<close>. The result is the alert
  shown, if any, and the state afterwards.
\<close>

definition handleFileUpload ::
  "'st importHooks \<Rightarrow> json option \<Rightarrow> bool \<Rightarrow> 'st \<Rightarrow> notice option \<times> 'st" where
  "handleFileUpload h parsed confirmed s =
     (case parsed of
        None \<Rightarrow> (Some ReadError, s)
      | Some JNull \<Rightarrow> (Some ReadError, s)
      | Some data \<Rightarrow>
          (case (getProp data ''bills'', getProp data ''services'') of
             (Some (JArr bs), Some (JArr svs)) \<Rightarrow>
               if confirmed then
                 (Some Restored,
                  applySettings h data
                    (applyCategories h data (restoreServices h svs (restoreBills h bs s))))
               else (None, s)
           | _ \<Rightarrow> (Some InvalidFile, s)))"

text \<open>
  The collections and settings the import writes. The import checks nothing about the
  elements of the arrays, so they stay JSON values here.
\<close>

record store =
  billsStore :: "json list"
  servicesStore :: "json list"
  categoriesStore :: "json list"
  shopName :: json
  billTheme :: json

text \<open>
  Modelled from the spec: \<open>restoreBills\<close>, \<open>restoreServices\<close>, \<open>restoreCategories\<close>
  (hooks \<open>useBills\<close>, \<open>useServices\<close>) and \<open>updateShopName\<close>, \<open>updateBillTheme\<close>
  (\<open>useShopSettings\<close>), which are not among the sources. Section 4.1: restore(wholeArray)
  replaces the entire collection; the two setters store the value they are given.
\<close>

definition storeHooks :: "store importHooks" where
  "storeHooks =
     \<lparr>restoreBills = (\<lambda>xs s. s\<lparr>billsStore := xs\<rparr>),
      restoreServices = (\<lambda>xs s. s\<lparr>servicesStore := xs\<rparr>),
      restoreCategories = (\<lambda>xs s. s\<lparr>categoriesStore := xs\<rparr>),
      updateShopName = (\<lambda>v s. s\<lparr>shopName := v\<rparr>),
      updateBillTheme = (\<lambda>v s. s\<lparr>billTheme := v\<rparr>)\<rparr>"

text \<open>An example backup and store.\<close>

definition backupExample :: json where
  "backupExample =
     JObj [(''bills'', JArr [JStr ''bill-1'']), (''services'', JArr []),
           (''settings'', JObj [(''shopName'', JStr ''Orange'')])]"

definition storeExample :: store where
  "storeExample =
     \<lparr>billsStore = [], servicesStore = [JStr ''svc-1''], categoriesStore = [JStr ''cat-1''],
      shopName = JStr ''Nail Spa'', billTheme = JStr ''default''\<rparr>"

section \<open>Customer statistics (CustomerList)\<close>

record visitRecord =
  visit_date :: int
  amount :: number

record customer =
  customer_id :: string
  customer_name :: string
  phone :: "string option"
  dob :: "string option"

record customerStat =
  stat_id :: "string option"
  stat_name :: string
  stat_phone :: "string option"
  stat_dob :: "string option"
  totalSpent :: number
  visitCount :: nat
  lastVisitDate :: "int option"
  visitHistory :: "visitRecord list"

text \<open>
  The values of \<open>statsMap\<close>. The \<open>Map\<close> itself is a list of pairs in insertion order:
  \<open>get\<close> is \<open>map_of\<close>, \<open>set\<close> replaces the value of a key in place or adds the key at
  the end.
\<close>

record billStats =
  stats_totalSpent :: number
  visits :: "visitRecord list"

type_synonym statsMap = "(string \<times> billStats) list"

text \<open>The body of \<open>bills.forEach\<close>.\<close>

definition aggregateBill ::
  "(string \<Rightarrow> string) \<Rightarrow> (string \<Rightarrow> string) \<Rightarrow> statsMap \<Rightarrow> bill \<Rightarrow> statsMap" where
  "aggregateBill trim toLowerCase statsMap bill =
     (let name = trim (customerName bill) in
      if name = [] then statsMap
      else
        (let lowerName = toLowerCase name;
             existingStat = (case map_of statsMap lowerName of
                               Some e \<Rightarrow> e
                             | None \<Rightarrow> \<lparr>stats_totalSpent = Num 0, visits = []\<rparr>)
         in AList.update lowerName
              \<lparr>stats_totalSpent = js_add (stats_totalSpent existingStat) (bill_total bill),
               visits = visits existingStat @ [\<lparr>visit_date = date bill, amount = bill_total bill\<rparr>]\<rparr>
              statsMap))"

text \<open>
  \<open>visits.sort((a, b) => new Date(b.date).getTime() - new Date(a.date).getTime())\<close>: a
  stable sort by a consistent comparator on time values, later dates first.
  \<open>lastVisit\<close> is \<open>visits[0]?.date || ''\<close>.
\<close>

definition sortVisits :: "visitRecord list \<Rightarrow> visitRecord list" where
  "sortVisits vs = sort_key (\<lambda>v. - visit_date v) vs"

definition lastVisit :: "visitRecord list \<Rightarrow> int option" where
  "lastVisit vs = (case vs of [] \<Rightarrow> None | v # _ \<Rightarrow> Some (visit_date v))"

text \<open>The body of \<open>customers.forEach\<close>.\<close>

definition manualStat ::
  "(string \<Rightarrow> string) \<Rightarrow> (string \<Rightarrow> string) \<Rightarrow> statsMap \<Rightarrow> customer \<Rightarrow> customerStat" where
  "manualStat trim toLowerCase statsMap cust =
     (let lowerName = toLowerCase (trim (customer_name cust));
          billStats = map_of statsMap lowerName;
          vs = (case billStats of Some st \<Rightarrow> sortVisits (visits st) | None \<Rightarrow> [])
      in \<lparr>stat_id = Some (customer_id cust),
          stat_name = customer_name cust,
          stat_phone = phone cust,
          stat_dob = dob cust,
          totalSpent = (case billStats of Some st \<Rightarrow> stats_totalSpent st | None \<Rightarrow> Num 0),
          visitCount = length vs,
          lastVisitDate = lastVisit vs,
          visitHistory = vs\<rparr>)"

text \<open>\<open>bills.find(b => b.customerName.toLowerCase() === lowerName)?.customerName || lowerName\<close>\<close>

definition originalName :: "(string \<Rightarrow> string) \<Rightarrow> bill list \<Rightarrow> string \<Rightarrow> string" where
  "originalName toLowerCase bs lowerName =
     (case find (\<lambda>b. toLowerCase (customerName b) = lowerName) bs of
        Some b \<Rightarrow> if customerName b = [] then lowerName else customerName b
      | None \<Rightarrow> lowerName)"

text \<open>The body of the loop over the names left in \<open>processedNames\<close>.\<close>

definition billOnlyStat ::
  "(string \<Rightarrow> string) \<Rightarrow> bill list \<Rightarrow> statsMap \<Rightarrow> string \<Rightarrow> customerStat list" where
  "billOnlyStat toLowerCase bs statsMap lowerName =
     (case map_of statsMap lowerName of
        None \<Rightarrow> []
      | Some st \<Rightarrow>
          (let vs = sortVisits (visits st)
           in [\<lparr>stat_id = None,
                stat_name = originalName toLowerCase bs lowerName,
                stat_phone = None,
                stat_dob = None,
                totalSpent = stats_totalSpent st,
                visitCount = length vs,
                lastVisitDate = lastVisit vs,
                visitHistory = vs\<rparr>]))"

text \<open>\<open>(a, b) => b.totalSpent - a.totalSpent\<close>\<close>

definition byTotalSpent :: "customerStat \<Rightarrow> customerStat \<Rightarrow> number" where
  "byTotalSpent a b = js_sub (totalSpent b) (totalSpent a)"

definition customerStats ::
  "(string \<Rightarrow> string) \<Rightarrow> (string \<Rightarrow> string) \<Rightarrow> bill list \<Rightarrow> customer list \<Rightarrow> customerStat list" where
  "customerStats trim toLowerCase bs customers =
     (let statsMap = foldl (aggregateBill trim toLowerCase) [] bs;
          processedNames = map fst statsMap;
          manual = map (manualStat trim toLowerCase statsMap) customers;
          deleted = map (\<lambda>cust. toLowerCase (trim (customer_name cust))) customers;
          remaining = filter (\<lambda>lowerName. lowerName \<notin> set deleted) processedNames;
          mergedStats = manual @ concat (map (billOnlyStat toLowerCase bs statsMap) remaining)
      in Array_sort byTotalSpent mergedStats)"

text \<open>
  The view as the specification words it: the normalised name (trimmed, then in lower
  case), the bills of a normalised name (a name that is blank after trimming belongs
  to no customer), and the statistics of a group of bills. The total of a group is the
  sum of its totals in the order of the bills, in double arithmetic, from 0.
\<close>

definition normalizedName :: "(string \<Rightarrow> string) \<Rightarrow> (string \<Rightarrow> string) \<Rightarrow> string \<Rightarrow> string" where
  "normalizedName trim toLowerCase s = toLowerCase (trim s)"

definition billsOf ::
  "(string \<Rightarrow> string) \<Rightarrow> (string \<Rightarrow> string) \<Rightarrow> string \<Rightarrow> bill list \<Rightarrow> bill list" where
  "billsOf trim toLowerCase k bs =
     filter (\<lambda>b. trim (customerName b) \<noteq> [] \<and>
                  normalizedName trim toLowerCase (customerName b) = k) bs"

definition visitOf :: "bill \<Rightarrow> visitRecord" where
  "visitOf b = \<lparr>visit_date = date b, amount = bill_total b\<rparr>"

definition sumOfTotals :: "bill list \<Rightarrow> number" where
  "sumOfTotals g = foldl js_add (Num 0) (map bill_total g)"

definition groupStats :: "bill list \<Rightarrow> billStats" where
  "groupStats g = \<lparr>stats_totalSpent = sumOfTotals g, visits = map visitOf g\<rparr>"

definition newestFirst :: "visitRecord list \<Rightarrow> bool" where
  "newestFirst vs = sorted_wrt (\<lambda>a b. visit_date a \<ge> visit_date b) vs"

definition statOfGroup ::
  "string option \<Rightarrow> string \<Rightarrow> string option \<Rightarrow> string option \<Rightarrow> bill list \<Rightarrow> customerStat" where
  "statOfGroup i n p d g =
     \<lparr>stat_id = i, stat_name = n, stat_phone = p, stat_dob = d,
      totalSpent = sumOfTotals g,
      visitCount = length g,
      lastVisitDate = (if g = [] then None else Some (Max (date ` set g))),
      visitHistory = sortVisits (map visitOf g)\<rparr>"

definition profileStat ::
  "(string \<Rightarrow> string) \<Rightarrow> (string \<Rightarrow> string) \<Rightarrow> bill list \<Rightarrow> customer \<Rightarrow> customerStat" where
  "profileStat trim toLowerCase bs c =
     statOfGroup (Some (customer_id c)) (customer_name c) (phone c) (dob c)
       (billsOf trim toLowerCase (normalizedName trim toLowerCase (customer_name c)) bs)"

definition billOnlyGroupStat ::
  "(string \<Rightarrow> string) \<Rightarrow> (string \<Rightarrow> string) \<Rightarrow> bill list \<Rightarrow> string \<Rightarrow> customerStat" where
  "billOnlyGroupStat trim toLowerCase bs k =
     statOfGroup None (originalName toLowerCase bs k) None None (billsOf trim toLowerCase k bs)"

text \<open>The names left in \<open>processedNames\<close> after the loop over the customers.\<close>

definition remainingNames ::
  "(string \<Rightarrow> string) \<Rightarrow> (string \<Rightarrow> string) \<Rightarrow> bill list \<Rightarrow> customer list \<Rightarrow> string list" where
  "remainingNames trim toLowerCase bs customers =
     filter (\<lambda>k. k \<notin> set (map (\<lambda>c. normalizedName trim toLowerCase (customer_name c)) customers))
       (map fst (foldl (aggregateBill trim toLowerCase) [] bs))"

text \<open>Two bills for the example of the spec.\<close>

definition annaBills :: "bill list" where
  "annaBills =
     [(sampleBooking ''bill-1'' (10 * hour))\<lparr>customerName := ''Anna '', bill_total := Num 150000\<rparr>,
      (sampleBooking ''bill-2'' (20 * hour))\<lparr>customerName := ''anna'', bill_total := Num 50000\<rparr>]"

section \<open>Properties\<close>

subsection \<open>Rounding to a double\<close>

lemma roundEven_of_int: "roundEven (of_int n) = n"
  by (simp add: roundEven_def)

lemma roundEven_cases: "roundEven y = \<lfloor>y\<rfloor> \<or> roundEven y = \<lfloor>y\<rfloor> + 1"
  by (simp add: roundEven_def Let_def)

lemma roundEven_near:
  assumes "\<bar>of_int n - y\<bar> < 1 / 2"
  shows "roundEven y = n"
proof (cases "of_int n \<le> y")
  case True
  with assms have "y < of_int n + 1"
    by linarith
  with True have "\<lfloor>y\<rfloor> = n"
    by (simp add: floor_unique)
  with assms True show ?thesis
    by (simp add: roundEven_def Let_def)
next
  case False
  with assms have "of_int (n - 1) \<le> y" and "y < of_int (n - 1) + 1"
    by simp_all
  then have f: "\<lfloor>y\<rfloor> = n - 1"
    by (rule floor_unique)
  from assms False have "1 / 2 < y - of_int (n - 1)"
    by simp
  with f show ?thesis
    by (simp add: roundEven_def Let_def)
qed

lemma roundEven_le:
  assumes "y \<le> of_int b"
  shows "roundEven y \<le> b"
proof (cases "\<lfloor>y\<rfloor> < b")
  case True
  with roundEven_cases [of y] show ?thesis
    by auto
next
  case False
  from assms have "\<lfloor>y\<rfloor> \<le> b"
    by (simp add: floor_le_iff) 
  with False have "\<lfloor>y\<rfloor> = b"
    by simp
  then have "of_int b \<le> y"
    by (metis of_int_floor_le)
  with assms have "y = of_int b"
    by simp
  then show ?thesis
    by (simp add: roundEven_of_int)
qed

lemma roundEven_ge:
  assumes "of_int a \<le> y"
  shows "a \<le> roundEven y"
proof -
  from assms have "a \<le> \<lfloor>y\<rfloor>"
    by (simp add: le_floor_iff)
  with roundEven_cases [of y] show ?thesis
    by auto
qed

lemma ilog2_bounds:
  assumes "x \<noteq> 0"
  shows "power_int 2 (ilog2 x) \<le> \<bar>x\<bar> \<and> \<bar>x\<bar> < power_int 2 (ilog2 x + 1)"
proof (cases "1 \<le> \<bar>x\<bar>")
  case True
  define k where "k = \<lfloor>\<bar>x\<bar>\<rfloor>"
  define b where "b = bitlen k"
  from True have kpos: "0 < k"
    by (simp add: k_def)
  then have b1: "1 \<le> b"
    using bitlen_eq_zero_iff [of k] bitlen_nonneg [of k] by (simp add: b_def)
  from bitlen_bounds [OF kpos] have lo: "2 ^ nat (b - 1) \<le> k" and hi: "k + 1 \<le> 2 ^ nat b"
    by (simp_all add: b_def)
  have e: "ilog2 x = b - 1"
    using True by (simp add: ilog2_def k_def b_def)
  from lo have "(of_int (2 ^ nat (b - 1)) :: rat) \<le> of_int k"
    by (simp only: of_int_le_iff)
  then have "(2::rat) ^ nat (b - 1) \<le> of_int k"
    by (simp only: of_int_power of_int_numeral)
  also have "(of_int k :: rat) \<le> \<bar>x\<bar>"
    by (simp add: k_def)
  finally have 1: "power_int 2 (b - 1) \<le> \<bar>x\<bar>"
    using b1 by (simp add: power_int_nonneg_exp)
  have "\<bar>x\<bar> < of_int (k + 1)"
    unfolding k_def using floor_correct [of "\<bar>x\<bar>"] by simp
  also from hi have "(of_int (k + 1) :: rat) \<le> of_int (2 ^ nat b)"
    by (simp only: of_int_le_iff)
  also have "(of_int (2 ^ nat b) :: rat) = 2 ^ nat b"
    by (simp only: of_int_power of_int_numeral)
  finally have 2: "\<bar>x\<bar> < power_int 2 b"
    using b1 by (simp add: power_int_nonneg_exp)
  from 1 2 show ?thesis
    by (simp add: e)
next
  case False
  define y where "y = 1 / \<bar>x\<bar>"
  define j where "j = \<lceil>y\<rceil> - 1"
  define b where "b = bitlen j"
  from assms False have y1: "1 < y"
    by (simp add: y_def)
  then have jpos: "0 < j"
    by (simp add: j_def less_ceiling_iff)
  then have b1: "1 \<le> b"
    using bitlen_eq_zero_iff [of j] bitlen_nonneg [of j] by (simp add: b_def)
  from bitlen_bounds [OF jpos] have lo: "2 ^ nat (b - 1) \<le> j" and hi: "j + 1 \<le> 2 ^ nat b"
    by (simp_all add: b_def)
  have e: "ilog2 x = - b"
    using False by (simp add: ilog2_def y_def j_def b_def)
  have xy: "\<bar>x\<bar> = 1 / y" and ypos: "0 < y"
    using assms by (simp_all add: y_def)
  have "y \<le> of_int (j + 1)"
    unfolding j_def using ceiling_correct [of y] by simp
  also from hi have "(of_int (j + 1) :: rat) \<le> of_int (2 ^ nat b)"
    by (simp only: of_int_le_iff)
  also have "(of_int (2 ^ nat b) :: rat) = 2 ^ nat b"
    by (simp only: of_int_power of_int_numeral)
  finally have "y \<le> 2 ^ nat b" .
  with ypos have "1 / (2::rat) ^ nat b \<le> 1 / y"
    by (simp add: frac_le)
  then have 1: "power_int 2 (- b) \<le> \<bar>x\<bar>"
    using b1 by (simp add: xy power_int_minus_divide power_int_nonneg_exp)
  from lo have "(of_int (2 ^ nat (b - 1)) :: rat) \<le> of_int j"
    by (simp only: of_int_le_iff)
  then have "(2::rat) ^ nat (b - 1) \<le> of_int j"
    by (simp only: of_int_power of_int_numeral)
  also have "of_int j < y"
    unfolding j_def using ceiling_correct [of y] by simp
  finally have "(2::rat) ^ nat (b - 1) < y" .
  then have "1 / y < 1 / (2::rat) ^ nat (b - 1)"
    by (simp add: frac_less2)
  moreover have "power_int (2::rat) (- b + 1) = 1 / 2 ^ nat (b - 1)"
  proof -
    have "- b + 1 = - (b - 1)"
      by simp
    then show ?thesis
      using b1 by (simp only: power_int_minus_divide) (simp add: power_int_nonneg_exp)
  qed
  ultimately have 2: "\<bar>x\<bar> < power_int 2 (- b + 1)"
    by (simp add: xy)
  from 1 2 show ?thesis
    by (simp add: e)
qed

lemma ilog2_unique:
  assumes "power_int 2 e \<le> \<bar>x\<bar>" and "\<bar>x\<bar> < power_int 2 (e + 1)"
  shows "ilog2 x = e"
proof -
  have "0 < power_int (2::rat) e"
    by simp
  with assms(1) have "0 < \<bar>x\<bar>"
    by linarith
  then have "x \<noteq> 0"
    by simp
  from ilog2_bounds [OF this] have lo: "power_int 2 (ilog2 x) \<le> \<bar>x\<bar>"
    and hi: "\<bar>x\<bar> < power_int 2 (ilog2 x + 1)"
    by simp_all
  have "\<not> ilog2 x < e"
  proof
    assume "ilog2 x < e"
    then have "power_int (2::rat) (ilog2 x + 1) \<le> power_int 2 e"
      by (intro power_int_increasing) simp_all
    with hi assms(1) show False
      by simp
  qed
  moreover have "\<not> e < ilog2 x"
  proof
    assume "e < ilog2 x"
    then have "power_int (2::rat) (e + 1) \<le> power_int 2 (ilog2 x)"
      by (intro power_int_increasing) simp_all
    with lo assms(2) show False
      by simp
  qed
  ultimately show ?thesis
    by simp
qed

lemma toDouble_unfold:
  assumes "x \<noteq> 0" and "e = max (ilog2 x) (- 1022)" and "q = power_int 2 (e - 52)"
    and "r = of_int (roundEven (x / q)) * q"
  shows "toDouble x =
           (if 2 ^ 1024 \<le> r then PosInf else if r \<le> - (2 ^ 1024) then NegInf else Num r)"
  using assms by (simp add: toDouble_def Let_def)

lemma pow2_shift: "(2::rat) ^ 53 * power_int 2 k = power_int 2 (k + 53)"
proof -
  have "power_int (2::rat) (k + 53) = power_int 2 k * power_int 2 53"
    by (rule power_int_add) simp
  then show ?thesis
    by simp
qed

lemma toDouble_exact:
  assumes n: "\<bar>n\<bar> \<le> 2 ^ 53" and k: "- 1074 \<le> k"
    and fin: "\<bar>of_int n * power_int 2 k\<bar> < (2::rat) ^ 1024"
  shows "toDouble (of_int n * power_int 2 k) = Num (of_int n * power_int 2 k)"
proof (cases "n = 0")
  case True
  then show ?thesis
    by (simp add: toDouble_def)
next
  case False
  define x where "x = (of_int n :: rat) * power_int 2 k"
  define e where "e = max (ilog2 x) (- 1022)"
  define q where "q = power_int (2::rat) (e - 52)"
  have kpos: "0 < power_int (2::rat) k"
    by simp
  from False have x0: "x \<noteq> 0"
    by (simp add: x_def)
  have q0: "q \<noteq> 0"
    by (simp add: q_def)
  have absx: "\<bar>x\<bar> = of_int \<bar>n\<bar> * power_int 2 k"
    by (simp add: x_def abs_mult)
  have "\<exists>m. x / q = of_int m"
  proof (cases "e - 52 \<le> k")
    case True
    have "x / q = of_int n * (power_int 2 k / power_int 2 (e - 52))"
      by (simp add: x_def q_def)
    also have "power_int (2::rat) k / power_int 2 (e - 52) = power_int 2 (k - (e - 52))"
      by (rule power_int_diff [symmetric]) simp
    also have "\<dots> = 2 ^ nat (k - (e - 52))"
      using True by (simp add: power_int_nonneg_exp)
    also have "of_int n * (2::rat) ^ nat (k - (e - 52)) = of_int (n * 2 ^ nat (k - (e - 52)))"
      by simp
    finally show ?thesis
      by blast
  next
    case far: False
    with k have el: "e = ilog2 x" and big: "k + 53 \<le> ilog2 x"
      by (simp_all add: e_def max_def split: if_splits)
    from ilog2_bounds [OF x0] have lo: "power_int 2 (ilog2 x) \<le> \<bar>x\<bar>"
      by simp
    from big have "power_int (2::rat) (k + 53) \<le> power_int 2 (ilog2 x)"
      by (intro power_int_increasing) simp_all
    with lo have ge: "power_int 2 (k + 53) \<le> \<bar>x\<bar>"
      by linarith
    from n have "(of_int \<bar>n\<bar> :: rat) \<le> of_int (2 ^ 53)"
      by (simp only: of_int_le_iff)
    then have n': "(of_int \<bar>n\<bar> :: rat) \<le> 2 ^ 53"
      by simp
    with kpos have "of_int \<bar>n\<bar> * power_int (2::rat) k \<le> 2 ^ 53 * power_int 2 k"
      by (simp add: mult_right_mono)
    then have le: "\<bar>x\<bar> \<le> power_int 2 (k + 53)"
      by (simp only: absx pow2_shift)
    from ge le have eq: "\<bar>x\<bar> = power_int 2 (k + 53)"
      by simp
    have "\<bar>x\<bar> < power_int 2 (k + 53 + 1)"
      unfolding eq by (intro power_int_strict_increasing) simp_all
    with ge have "ilog2 x = k + 53"
      by (rule ilog2_unique)
    with el have e: "e = k + 53"
      by simp
    from eq have "of_int \<bar>n\<bar> * power_int (2::rat) k = 2 ^ 53 * power_int 2 k"
      by (simp only: absx pow2_shift)
    with kpos have "(of_int \<bar>n\<bar> :: rat) = 2 ^ 53"
      by simp
    then have "(of_int \<bar>n\<bar> :: rat) = of_int (2 ^ 53)"
      by simp
    then have "\<bar>n\<bar> = 2 ^ 53"
      by (simp only: of_int_eq_iff)
    then have "n = 9007199254740992 \<or> n = - 9007199254740992"
      by (simp add: abs_if split: if_splits)
    then have n2: "n = 2 * (n div 2)"
      by auto
    have p: "power_int (2::rat) (k + 1) = power_int 2 k * 2"
      using power_int_add [of "2::rat" k 1] by simp
    have "e - 52 = k + 1"
      using e by simp
    then have "q = power_int 2 k * 2"
      unfolding q_def by (simp only: p)
    then have "x / q = of_int n / 2"
      by (simp add: x_def)
    also have "\<dots> = of_int (n div 2)"
      by (subst n2) simp
    finally show ?thesis
      by blast
  qed
  then obtain m where m: "x / q = of_int m"
    by blast
  with q0 have r: "of_int (roundEven (x / q)) * q = x"
    by (simp add: roundEven_of_int) (simp add: field_simps)
  from fin have "\<not> 2 ^ 1024 \<le> x" and "\<not> x \<le> - (2 ^ 1024)"
    by (simp_all add: x_def [symmetric] abs_less_iff)
  then have "toDouble x = Num x"
    using toDouble_unfold [OF x0 e_def q_def r [symmetric]] by simp
  then show ?thesis
    by (simp add: x_def)
qed

lemma roundEven_bound:
  assumes "\<bar>y\<bar> < of_int b"
  shows "\<bar>roundEven y\<bar> \<le> b"
proof -
  from assms have "y \<le> of_int b" and "of_int (- b) \<le> y"
    by simp_all
  then have "roundEven y \<le> b" and "- b \<le> roundEven y"
    by (simp_all only: roundEven_le roundEven_ge)
  then show ?thesis
    by simp
qed

lemma toDouble_idem:
  assumes "toDouble x = Num r"
  shows "toDouble r = Num r"
proof (cases "x = 0")
  case True
  with assms show ?thesis
    by (simp add: toDouble_def)
next
  case False
  define e where "e = max (ilog2 x) (- 1022)"
  define q where "q = power_int (2::rat) (e - 52)"
  define n where "n = roundEven (x / q)"
  have qpos: "0 < q"
    by (simp add: q_def)
  from assms toDouble_unfold [OF False e_def q_def refl]
  have r: "r = of_int n * q" and fin: "\<not> 2 ^ 1024 \<le> r" "\<not> r \<le> - (2 ^ 1024)"
    by (simp_all add: n_def split: if_splits)
  from ilog2_bounds [OF False] have "\<bar>x\<bar> < power_int 2 (ilog2 x + 1)"
    by simp
  also have "power_int (2::rat) (ilog2 x + 1) \<le> power_int 2 (e + 1)"
    by (intro power_int_increasing) (simp_all add: e_def)
  also have "power_int (2::rat) (e + 1) = 2 ^ 53 * q"
  proof -
    have "e + 1 = (e - 52) + 53"
      by simp
    then show ?thesis
      unfolding q_def by (simp only: pow2_shift)
  qed
  finally have "\<bar>x\<bar> / q < 2 ^ 53"
    using qpos by (simp add: field_simps)
  with qpos have "\<bar>x / q\<bar> < of_int (2 ^ 53)"
    by (simp add: abs_divide)
  then have n: "\<bar>n\<bar> \<le> 2 ^ 53"
    unfolding n_def by (rule roundEven_bound)
  have k: "- 1074 \<le> e - 52"
    by (simp add: e_def)
  from fin have "\<bar>of_int n * power_int 2 (e - 52)\<bar> < (2::rat) ^ 1024"
    by (simp add: r q_def abs_less_iff)
  from toDouble_exact [OF n k this] show ?thesis
    by (simp add: r q_def)
qed

lemma toDouble_of_int:
  assumes "\<bar>n\<bar> \<le> 2 ^ 53"
  shows "toDouble (of_int n) = Num (of_int n)"
proof -
  from assms have "(of_int \<bar>n\<bar> :: rat) \<le> of_int (2 ^ 53)"
    by (simp only: of_int_le_iff)
  then have "\<bar>of_int n * power_int 2 0\<bar> < (2::rat) ^ 1024"
    by simp
  from toDouble_exact [OF assms _ this] show ?thesis
    by simp
qed

lemma toDouble_eqI:
  assumes "power_int 2 e \<le> \<bar>x\<bar>" and "\<bar>x\<bar> < power_int 2 (e + 1)" and "- 1022 \<le> e"
    and "\<bar>of_int n - x / power_int 2 (e - 52)\<bar> < 1 / 2"
    and "\<bar>of_int n * power_int 2 (e - 52)\<bar> < (2::rat) ^ 1024"
  shows "toDouble x = Num (of_int n * power_int 2 (e - 52))"
proof -
  have "0 < power_int (2::rat) e"
    by simp
  with assms(1) have "0 < \<bar>x\<bar>"
    by linarith
  then have x0: "x \<noteq> 0"
    by simp
  from assms(1,2) have "ilog2 x = e"
    by (rule ilog2_unique)
  with assms(3) have e: "e = max (ilog2 x) (- 1022)"
    by simp
  from assms(4) have "roundEven (x / power_int 2 (e - 52)) = n"
    by (rule roundEven_near)
  then have r: "of_int n * power_int 2 (e - 52) =
                of_int (roundEven (x / power_int 2 (e - 52))) * power_int 2 (e - 52)"
    by simp
  from assms(5) show ?thesis
    using toDouble_unfold [OF x0 e refl r] by (simp add: abs_less_iff)
qed

subsection \<open>Days\<close>

lemma div_add_days:
  fixes a k m :: int
  assumes "m \<noteq> 0"
  shows "(a + k * m) div m = a div m + k"
  using assms by simp

subsection \<open>The poll tick\<close>

lemma enqueueDue_cases:
  "enqueueDue b q = (if bill_id b \<in> bill_id ` set q then q else q @ [b])"
proof -
  have "list_ex (\<lambda>x. bill_id x = bill_id b) q \<longleftrightarrow> bill_id b \<in> bill_id ` set q"
    unfolding list_ex_iff image_iff by (rule bex_cong) auto
  then show ?thesis
    by (simp add: enqueueDue_def)
qed

lemma distinct_enqueueDue:
  "distinct (map bill_id q) \<Longrightarrow> distinct (map bill_id (enqueueDue b q))"
  by (simp add: enqueueDue_cases)

lemma checkLoop_Cons:
  "checkLoop now seen (b # bs) s =
     checkLoop now seen bs
       (if surfaces now seen b
        then s\<lparr>dueBookingQueue := enqueueDue b (dueBookingQueue s),
               notifiedBookingIds := insert (bill_id b) (notifiedBookingIds s)\<rparr>
        else s)"
  by (simp add: surfaces_def)

lemma checkLoop_notified:
  "notifiedBookingIds (checkLoop now seen bs s) =
     notifiedBookingIds s \<union> bill_id ` {b \<in> set bs. surfaces now seen b}"
  by (induction bs arbitrary: s) (auto simp: surfaces_def)

lemma checkLoop_distinct:
  "distinct (map bill_id (dueBookingQueue s)) \<Longrightarrow>
   distinct (map bill_id (dueBookingQueue (checkLoop now seen bs s)))"
  by (induction bs arbitrary: s) (simp_all add: distinct_enqueueDue)

lemma checkLoop_queue_ids:
  "bill_id ` set (dueBookingQueue (checkLoop now seen bs s)) =
     bill_id ` set (dueBookingQueue s) \<union> bill_id ` {b \<in> set bs. surfaces now seen b}"
  by (induction bs arbitrary: s) (auto simp: surfaces_def enqueueDue_cases)

lemma checkLoop_queue:
  assumes "distinct (map bill_id bs)"
    and "\<forall>x\<in>set (dueBookingQueue s). \<forall>b\<in>set bs. surfaces now seen b \<longrightarrow> bill_id x \<noteq> bill_id b"
  shows "dueBookingQueue (checkLoop now seen bs s) =
           dueBookingQueue s @ filter (surfaces now seen) bs"
  using assms
proof (induction bs arbitrary: s)
  case Nil
  then show ?case by simp
next
  case (Cons b bs)
  show ?case
  proof (cases "surfaces now seen b")
    case True
    let ?s = "s\<lparr>dueBookingQueue := enqueueDue b (dueBookingQueue s),
               notifiedBookingIds := insert (bill_id b) (notifiedBookingIds s)\<rparr>"
    from Cons.prems True have fresh: "bill_id b \<notin> bill_id ` set (dueBookingQueue s)"
      by auto
    then have q: "dueBookingQueue ?s = dueBookingQueue s @ [b]"
      by (simp add: enqueueDue_cases)
    have d: "distinct (map bill_id bs)" and nb: "bill_id b \<notin> bill_id ` set bs"
      using Cons.prems(1) by simp_all
    have "\<forall>x\<in>set (dueBookingQueue ?s). \<forall>b'\<in>set bs.
            surfaces now seen b' \<longrightarrow> bill_id x \<noteq> bill_id b'"
      using Cons.prems(2) nb unfolding q by auto
    from Cons.IH [OF d this] True show ?thesis
      unfolding checkLoop_Cons using q by simp
  next
    case False
    have d: "distinct (map bill_id bs)"
      using Cons.prems(1) by simp
    have "\<forall>x\<in>set (dueBookingQueue s). \<forall>b'\<in>set bs.
            surfaces now seen b' \<longrightarrow> bill_id x \<noteq> bill_id b'"
      using Cons.prems(2) by auto
    from Cons.IH [OF d this] False show ?thesis
      unfolding checkLoop_Cons by simp
  qed
qed

lemma checkLoop_keeps:
  "bookings (checkLoop now seen bs s) = bookings s \<and> bills (checkLoop now seen bs s) = bills s"
  by (induction bs arbitrary: s) simp_all

lemma checkLoop_queue_set:
  "set (dueBookingQueue (checkLoop now seen bs s)) \<subseteq>
     set (dueBookingQueue s) \<union> {b \<in> set bs. surfaces now seen b}"
proof (induction bs arbitrary: s)
  case Nil
  then show ?case by simp
next
  case (Cons b bs)
  show ?case
    unfolding checkLoop_Cons
    by (rule subset_trans [OF Cons.IH]) (auto simp: enqueueDue_cases)
qed

lemma checkBookings_queue:
  assumes "distinct (map bill_id (bookings s))" and "queue_ok s"
  shows "dueBookingQueue (checkBookings now s) =
           dueBookingQueue s @ filter (surfaces now (notifiedBookingIds s)) (bookings s)"
proof -
  have "\<forall>x\<in>set (dueBookingQueue s). \<forall>b\<in>set (bookings s).
          surfaces now (notifiedBookingIds s) b \<longrightarrow> bill_id x \<noteq> bill_id b"
    using assms(2) by (auto simp: queue_ok_def surfaces_def)
  with assms(1) show ?thesis
    unfolding checkBookings_def by (rule checkLoop_queue)
qed

lemma checkBookings_queue_ok:
  assumes "queue_ok s"
  shows "queue_ok (checkBookings now s)"
proof -
  have "distinct (map bill_id (dueBookingQueue (checkBookings now s)))"
    using assms by (simp add: checkBookings_def queue_ok_def checkLoop_distinct)
  moreover have "bill_id ` set (dueBookingQueue (checkBookings now s))
                   \<subseteq> notifiedBookingIds (checkBookings now s)"
    using assms
    by (auto simp: checkBookings_def queue_ok_def checkLoop_queue_ids checkLoop_notified)
  ultimately show ?thesis
    by (simp add: queue_ok_def)
qed

lemma processNextBooking_queue_ok:
  assumes "queue_ok s"
  shows "queue_ok (processNextBooking s)"
proof (cases "dueBookingQueue s")
  case Nil
  with assms show ?thesis
    by (simp add: queue_ok_def processNextBooking_def)
next
  case (Cons b q)
  with assms show ?thesis
    by (auto simp: queue_ok_def processNextBooking_def)
qed

lemma confirmSnooze_queue_ok:
  assumes "queue_ok s"
  shows "queue_ok (confirmSnooze now s)"
proof (cases "dueBookingQueue s")
  case Nil
  with assms show ?thesis
    by (simp add: confirmSnooze_def currentDueBooking_def)
next
  case (Cons b q)
  show ?thesis
  proof (cases "snoozeDuration s")
    case None
    with assms Cons show ?thesis
      by (simp add: confirmSnooze_def currentDueBooking_def)
  next
    case (Some d)
    from assms Cons have dq: "distinct (map bill_id q)" and nq: "bill_id b \<notin> bill_id ` set q"
      and sub: "bill_id ` set q \<subseteq> notifiedBookingIds s"
      by (simp_all add: queue_ok_def)
    from sub nq have "bill_id ` set q \<subseteq> notifiedBookingIds s - {bill_id b}"
      by blast
    with dq assms Cons Some show ?thesis
      by (simp add: confirmSnooze_def currentDueBooking_def queue_ok_def
          processNextBooking_def Let_def)
  qed
qed

lemma step_queue_ok:
  assumes "queue_ok s"
  shows "queue_ok (step a s)"
proof (cases a)
  case (Tick now)
  with assms show ?thesis
    by (simp add: checkBookings_queue_ok)
next
  case (Confirm now newId)
  have "queue_ok (confirmDueBooking (specAddBill newId) now s)"
  proof (cases "currentDueBooking s")
    case None
    with assms show ?thesis
      by (simp add: confirmDueBooking_def)
  next
    case (Some cur)
    let ?t = "s\<lparr>bills := specAddBill newId ((billData.truncate cur)\<lparr>date := now\<rparr>) (bills s),
               bookings := deleteBooking (bill_id cur) (bookings s)\<rparr>"
    from assms have "queue_ok ?t"
      by (simp add: queue_ok_def)
    then have "queue_ok (processNextBooking ?t)"
      by (rule processNextBooking_queue_ok)
    with Some show ?thesis
      by (simp add: confirmDueBooking_def Let_def)
  qed
  with Confirm show ?thesis by simp
next
  case (SetSnoozeDuration mins)
  with assms show ?thesis
    by (simp add: queue_ok_def)
next
  case (Snooze now)
  with assms show ?thesis
    by (simp add: confirmSnooze_queue_ok)
next
  case Delete
  have "queue_ok (deleteDueBooking s)"
  proof (cases "currentDueBooking s")
    case None
    with assms show ?thesis
      by (simp add: deleteDueBooking_def)
  next
    case (Some cur)
    let ?t = "s\<lparr>bookings := deleteBooking (bill_id cur) (bookings s)\<rparr>"
    from assms have "queue_ok ?t"
      by (simp add: queue_ok_def)
    then have "queue_ok (processNextBooking ?t)"
      by (rule processNextBooking_queue_ok)
    with Some show ?thesis
      by (simp add: deleteDueBooking_def)
  qed
  with Delete show ?thesis by simp
next
  case (AddBooking newId now b)
  with assms show ?thesis
    by (simp add: queue_ok_def)
next
  case (UpdateBooking b)
  with assms show ?thesis
    by (simp add: queue_ok_def)
next
  case (DeleteBooking i)
  with assms show ?thesis
    by (simp add: queue_ok_def)
next
  case (ConvertToBill confirmed now newId b)
  with assms show ?thesis
    by (simp add: queue_ok_def handleConvertToBill_def Let_def)
qed (use assms in \<open>simp_all add: queue_ok_def openSnoozeOptions_def cancelSnooze_def\<close>)

lemma initialApp_queue_ok: "queue_ok (initialApp bs bks stored)"
  by (simp add: queue_ok_def initialApp_def)

lemma run_queue_ok: "queue_ok s \<Longrightarrow> queue_ok (run as s)"
  by (induction as arbitrary: s) (simp_all add: step_queue_ok)


lemma distinct_updateBooking:
  "distinct (map bill_id bs) \<Longrightarrow> distinct (map bill_id (updateBooking u bs))"
proof -
  have "map bill_id (updateBooking u bs) = map bill_id bs"
    by (induction bs) (simp_all add: updateBooking_def)
  then show "distinct (map bill_id bs) \<Longrightarrow> ?thesis"
    by simp
qed

lemma distinct_deleteBooking:
  "distinct (map bill_id bs) \<Longrightarrow> distinct (map bill_id (deleteBooking i bs))"
  by (simp add: deleteBooking_def distinct_map_filter)

text \<open>
  C1. On a poll tick at \<open>now\<close>, in a state of the engine (every queued id in the ledger,
  no id twice in the queue) whose bookings have unique ids: the queue grows by exactly
  the bookings with \<open>date \<le> now\<close>, \<open>date > now - 24h\<close> and an id not in
  \<open>notifiedIds\<close>, in collection order; exactly their ids are added to \<open>notifiedIds\<close>;
  no id occurs twice in the queue afterwards. A booking not yet notified and dated
  \<open>now - 23h\<close> is in the queue after the tick; a booking dated \<open>now - 25h\<close> is added
  to the queue by no tick at \<open>now\<close> or later, in any state.
\<close>

theorem checkBookings_surfaces_due:
  assumes "distinct (map bill_id (bookings s))" and "queue_ok s"
  shows "dueBookingQueue (checkBookings now s) =
           dueBookingQueue s @
           filter (\<lambda>b. date b \<le> now \<and> date b > now - 24 * 60 * 60 * 1000 \<and>
                        bill_id b \<notin> notifiedBookingIds s) (bookings s)
         \<and> notifiedBookingIds (checkBookings now s) =
           notifiedBookingIds s \<union>
           bill_id ` {b \<in> set (bookings s). date b \<le> now \<and> date b > now - 24 * 60 * 60 * 1000 \<and>
                        bill_id b \<notin> notifiedBookingIds s}
         \<and> distinct (map bill_id (dueBookingQueue (checkBookings now s)))
         \<and> (\<forall>b \<in> set (bookings s).
               date b = now - 23 * hour \<and> bill_id b \<notin> notifiedBookingIds s \<longrightarrow>
               b \<in> set (dueBookingQueue (checkBookings now s)))
         \<and> (\<forall>b later t.
               date b = now - 25 * hour \<and> now \<le> later \<and>
               b \<in> set (dueBookingQueue (checkBookings later t)) \<longrightarrow>
               b \<in> set (dueBookingQueue t))"
proof -
  let ?seen = "notifiedBookingIds s"
  have cond: "surfaces now ?seen =
                (\<lambda>b. date b \<le> now \<and> date b > now - 24 * 60 * 60 * 1000 \<and> bill_id b \<notin> ?seen)"
    by (rule ext) (simp add: surfaces_def isDue_def isRecent_def)
  from assms have q: "dueBookingQueue (checkBookings now s) =
      dueBookingQueue s @ filter (surfaces now ?seen) (bookings s)"
    by (rule checkBookings_queue)
  have n: "notifiedBookingIds (checkBookings now s) =
      ?seen \<union> bill_id ` {b \<in> set (bookings s). surfaces now ?seen b}"
    by (simp add: checkBookings_def checkLoop_notified)
  have d: "distinct (map bill_id (dueBookingQueue (checkBookings now s)))"
    using assms(2) by (simp add: checkBookings_def queue_ok_def checkLoop_distinct)
  have near: "\<forall>b \<in> set (bookings s).
      date b = now - 23 * hour \<and> bill_id b \<notin> ?seen \<longrightarrow>
      b \<in> set (dueBookingQueue (checkBookings now s))"
    unfolding q by (simp add: surfaces_def isDue_def isRecent_def hour_def)
  have far: "\<forall>b later t.
      date b = now - 25 * hour \<and> now \<le> later \<and>
      b \<in> set (dueBookingQueue (checkBookings later t)) \<longrightarrow> b \<in> set (dueBookingQueue t)"
  proof (intro allI impI)
    fix b later t
    assume h: "date b = now - 25 * hour \<and> now \<le> later \<and>
               b \<in> set (dueBookingQueue (checkBookings later t))"
    then have "\<not> surfaces later (notifiedBookingIds t) b"
      by (simp add: surfaces_def isRecent_def hour_def)
    moreover from h have "b \<in> set (dueBookingQueue t) \<union>
        {b \<in> set (bookings t). surfaces later (notifiedBookingIds t) b}"
      using checkLoop_queue_set [of later "notifiedBookingIds t" "bookings t" t]
      by (auto simp: checkBookings_def)
    ultimately show "b \<in> set (dueBookingQueue t)"
      by simp
  qed
  from q have q': "dueBookingQueue (checkBookings now s) =
      dueBookingQueue s @
      filter (\<lambda>b. date b \<le> now \<and> date b > now - 24 * 60 * 60 * 1000 \<and>
                   bill_id b \<notin> notifiedBookingIds s) (bookings s)"
    unfolding cond .
  from n have n': "notifiedBookingIds (checkBookings now s) =
      notifiedBookingIds s \<union>
      bill_id ` {b \<in> set (bookings s). date b \<le> now \<and> date b > now - 24 * 60 * 60 * 1000 \<and>
                   bill_id b \<notin> notifiedBookingIds s}"
    unfolding cond .
  show ?thesis
    by (intro conjI) (rule q' n' d near far)+
qed

theorem checkBookings_surfaces_due_witness:
  "distinct (map bill_id (bookings (initialApp []
       [sampleBooking ''b23'' (77 * hour), sampleBooking ''b25'' (75 * hour),
        sampleBooking ''b101'' (101 * hour), sampleBooking ''old'' (99 * hour)] {''old''})))
   \<and> queue_ok (initialApp []
       [sampleBooking ''b23'' (77 * hour), sampleBooking ''b25'' (75 * hour),
        sampleBooking ''b101'' (101 * hour), sampleBooking ''old'' (99 * hour)] {''old''})
   \<and> dueBookingQueue (checkBookings (100 * hour) (initialApp []
       [sampleBooking ''b23'' (77 * hour), sampleBooking ''b25'' (75 * hour),
        sampleBooking ''b101'' (101 * hour), sampleBooking ''old'' (99 * hour)] {''old''}))
     = [sampleBooking ''b23'' (77 * hour)]"
proof -
  let ?s = "initialApp []
       [sampleBooking ''b23'' (77 * hour), sampleBooking ''b25'' (75 * hour),
        sampleBooking ''b101'' (101 * hour), sampleBooking ''old'' (99 * hour)] {''old''}"
  have h1: "distinct (map bill_id (bookings ?s))"
    by (simp add: initialApp_def sampleBooking_def)
  have h2: "queue_ok ?s"
    by (rule initialApp_queue_ok)
  have "dueBookingQueue (checkBookings (100 * hour) ?s) = [sampleBooking ''b23'' (77 * hour)]"
    using checkBookings_surfaces_due [OF h1 h2, of "100 * hour", THEN conjunct1]
    by (simp add: initialApp_def sampleBooking_def hour_def)
  with h1 h2 show ?thesis
    by (intro conjI)
qed

subsection \<open>The ledger and the decisions\<close>


lemma processNextBooking_fields [simp]:
  "bookings (processNextBooking s) = bookings s"
  "bills (processNextBooking s) = bills s"
  "notifiedBookingIds (processNextBooking s) = notifiedBookingIds s"
  "dueBookingQueue (processNextBooking s) = drop 1 (dueBookingQueue s)"
  by (simp_all add: processNextBooking_def)










subsection \<open>Snooze\<close>

lemma run_append: "run (as @ bs) s = run bs (run as s)"
  by (induction as arbitrary: s) simp_all

lemma distinct_ids_eq:
  assumes "distinct (map bill_id bs)" and "x \<in> set bs" and "y \<in> set bs"
    and "bill_id x = bill_id y"
  shows "x = y"
  using assms by (meson distinct_map inj_onD)

lemma tick_early:
  assumes "b \<in> set (bookings s)" and "distinct (map bill_id (bookings s))"
    and "bill_id b \<notin> notifiedBookingIds s" and "t < date b"
  shows "bill_id b \<notin> notifiedBookingIds (checkBookings t s)"
proof
  assume "bill_id b \<in> notifiedBookingIds (checkBookings t s)"
  with assms(3) obtain b' where b': "b' \<in> set (bookings s)"
    "surfaces t (notifiedBookingIds s) b'" "bill_id b' = bill_id b"
    by (auto simp: checkBookings_def checkLoop_notified)
  from assms(2) b'(1) assms(1) b'(3) have "b' = b"
    by (rule distinct_ids_eq)
  with b'(2) assms(4) show False
    by (simp add: surfaces_def isDue_def)
qed

lemma checkBookings_bookings [simp]: "bookings (checkBookings t s) = bookings s"
  by (simp add: checkBookings_def checkLoop_keeps)

lemma ticks_early:
  assumes "b \<in> set (bookings s)" and "distinct (map bill_id (bookings s))"
    and "bill_id b \<notin> notifiedBookingIds s" and "queue_ok s"
    and "\<forall>x\<in>set ts. x < date b"
  shows "bookings (run (map Tick ts) s) = bookings s \<and>
         bill_id b \<notin> notifiedBookingIds (run (map Tick ts) s) \<and>
         queue_ok (run (map Tick ts) s)"
  using assms
proof (induction ts arbitrary: s)
  case Nil
  then show ?case by simp
next
  case (Cons t ts)
  let ?s = "checkBookings t s"
  from Cons.prems have t: "t < date b" and rest: "\<forall>x\<in>set ts. x < date b"
    by simp_all
  have 1: "b \<in> set (bookings ?s)" and 2: "distinct (map bill_id (bookings ?s))"
    using Cons.prems(1,2) by simp_all
  have 3: "bill_id b \<notin> notifiedBookingIds ?s"
    using Cons.prems(1,2,3) t by (rule tick_early)
  have 4: "queue_ok ?s"
    using Cons.prems(4) by (rule checkBookings_queue_ok)
  from Cons.IH [OF 1 2 3 4 rest] show ?case
    by simp
qed

lemma tick_due:
  assumes "b \<in> set (bookings s)" and "distinct (map bill_id (bookings s))"
    and "bill_id b \<notin> notifiedBookingIds s" and "queue_ok s"
    and "date b \<le> t" and "t < date b + 24 * hour"
  shows "b \<in> set (dueBookingQueue (checkBookings t s))"
proof -
  from assms(3,5,6) have "surfaces t (notifiedBookingIds s) b"
    by (simp add: surfaces_def isDue_def isRecent_def hour_def)
  with assms(1) show ?thesis
    unfolding checkBookings_queue [OF assms(2,4)] by simp
qed

lemma updateBooking_member:
  assumes "bill_id u \<in> bill_id ` set bs"
  shows "u \<in> set (updateBooking u bs)"
proof -
  from assms obtain x where "x \<in> set bs" and "bill_id x = bill_id u"
    by (metis imageE)
  then show ?thesis
    by (force simp: updateBooking_def)
qed

lemma confirmSnooze_head:
  assumes "dueBookingQueue s = cur # q" and "snoozeDuration s = Some d" and "d \<noteq> 0"
  shows "confirmSnooze now s =
           processNextBooking
             (s\<lparr>bookings := updateBooking (cur\<lparr>date := now + d * 60000\<rparr>) (bookings s),
                notifiedBookingIds := notifiedBookingIds s - {bill_id cur}\<rparr>)"
  using assms by (simp add: confirmSnooze_def currentDueBooking_def Let_def)

text \<open>
  C2 (as amended). In a state of the engine with unique booking ids, for the booking
  \<open>cur\<close> at the head of the queue and a chosen duration of \<open>d \<noteq> 0\<close> minutes, Snooze
  at \<open>now\<close> replaces the booking of that id by \<open>cur\<close> with date \<open>now + d\<close> minutes,
  removes the id from \<open>notifiedIds\<close> and pops the head. If the booking is in the
  collection, then after any ticks before the new time, the first tick at a time \<open>t\<close>
  with \<open>new time \<le> t < new time + 24h\<close> puts the rescheduled booking into the queue.
\<close>

theorem confirmSnooze_rearms:
  assumes "queue_ok s" and "distinct (map bill_id (bookings s))"
    and "dueBookingQueue s = cur # q" and "snoozeDuration s = Some d" and "d \<noteq> 0"
  shows "bookings (confirmSnooze now s) =
           map (\<lambda>b. if bill_id b = bill_id cur then cur\<lparr>date := now + d * 60000\<rparr> else b)
             (bookings s)
       \<and> notifiedBookingIds (confirmSnooze now s) = notifiedBookingIds s - {bill_id cur}
       \<and> dueBookingQueue (confirmSnooze now s) = q
       \<and> (\<forall>ts t. bill_id cur \<in> bill_id ` set (bookings s) \<and>
                  (\<forall>x\<in>set ts. x < now + d * 60000) \<and>
                  now + d * 60000 \<le> t \<and> t < now + d * 60000 + 24 * hour \<longrightarrow>
                  cur\<lparr>date := now + d * 60000\<rparr> \<in>
                    set (dueBookingQueue (run (map Tick ts @ [Tick t]) (confirmSnooze now s))))"
proof -
  let ?upd = "cur\<lparr>date := now + d * 60000\<rparr>"
  let ?s1 = "confirmSnooze now s"
  note eq = confirmSnooze_head [OF assms(3,4,5), of now]
  have bk: "bookings ?s1 = updateBooking ?upd (bookings s)"
    by (simp add: eq)
  then have bk': "bookings ?s1 =
      map (\<lambda>b. if bill_id b = bill_id cur then ?upd else b) (bookings s)"
    by (simp add: updateBooking_def)
  have nt: "notifiedBookingIds ?s1 = notifiedBookingIds s - {bill_id cur}"
    by (simp add: eq)
  have qu: "dueBookingQueue ?s1 = q"
    by (simp add: eq assms(3))
  have ok1: "queue_ok ?s1"
    using assms(1) by (rule confirmSnooze_queue_ok)
  have d1: "distinct (map bill_id (bookings ?s1))"
    unfolding bk using assms(2) by (rule distinct_updateBooking)
  have n1: "bill_id ?upd \<notin> notifiedBookingIds ?s1"
    by (simp add: nt)
  have again: "\<forall>ts t. bill_id cur \<in> bill_id ` set (bookings s) \<and>
                  (\<forall>x\<in>set ts. x < now + d * 60000) \<and>
                  now + d * 60000 \<le> t \<and> t < now + d * 60000 + 24 * hour \<longrightarrow>
                  ?upd \<in> set (dueBookingQueue (run (map Tick ts @ [Tick t]) ?s1))"
  proof (intro allI impI)
    fix ts t
    assume h: "bill_id cur \<in> bill_id ` set (bookings s) \<and>
               (\<forall>x\<in>set ts. x < now + d * 60000) \<and>
               now + d * 60000 \<le> t \<and> t < now + d * 60000 + 24 * hour"
    let ?s2 = "run (map Tick ts) ?s1"
    from h have "bill_id ?upd \<in> bill_id ` set (bookings s)"
      by simp
    then have m1: "?upd \<in> set (bookings ?s1)"
      unfolding bk by (rule updateBooking_member)
    from h have early: "\<forall>x\<in>set ts. x < date ?upd"
      by simp
    from ticks_early [OF m1 d1 n1 ok1 early]
    have b2: "bookings ?s2 = bookings ?s1"
      and n2: "bill_id ?upd \<notin> notifiedBookingIds ?s2"
      and ok2: "queue_ok ?s2"
      by blast+
    from m1 b2 have m2: "?upd \<in> set (bookings ?s2)"
      by simp
    from d1 b2 have d2: "distinct (map bill_id (bookings ?s2))"
      by simp
    from h have "date ?upd \<le> t" and "t < date ?upd + 24 * hour"
      by simp_all
    with m2 d2 n2 ok2 have "?upd \<in> set (dueBookingQueue (checkBookings t ?s2))"
      by (rule tick_due)
    then show "?upd \<in> set (dueBookingQueue (run (map Tick ts @ [Tick t]) ?s1))"
      by (simp add: run_append)
  qed
  show ?thesis
    by (intro conjI) (rule bk' nt qu again)+
qed

lemma snoozeExample_eq:
  "snoozeExample =
     \<lparr>bills = [], bookings = [sampleBooking ''b'' (100 * hour)],
      dueBookingQueue = [sampleBooking ''b'' (100 * hour)], notifiedBookingIds = {''b''},
      isSnoozeMode = False, snoozeDuration = Some 10, showDeleteConfirmForDue = False\<rparr>"
  by (simp add: snoozeExample_def checkBookings_def initialApp_def isDue_def isRecent_def
      enqueueDue_def sampleBooking_def hour_def)

theorem confirmSnooze_rearms_witness:
  "queue_ok snoozeExample
   \<and> distinct (map bill_id (bookings snoozeExample))
   \<and> dueBookingQueue snoozeExample = sampleBooking ''b'' (100 * hour) # []
   \<and> snoozeDuration snoozeExample = Some 10
   \<and> (10::int) \<noteq> 0
   \<and> bookings (confirmSnooze (100 * hour) snoozeExample)
       = [sampleBooking ''b'' (100 * hour + 10 * 60000)]
   \<and> notifiedBookingIds (confirmSnooze (100 * hour) snoozeExample) = {}
   \<and> dueBookingQueue (confirmSnooze (100 * hour) snoozeExample) = []
   \<and> sampleBooking ''b'' (100 * hour + 10 * 60000) \<in>
       set (dueBookingQueue
             (run (map Tick [100 * hour + 5000] @ [Tick (100 * hour + 10 * 60000 + 3000)])
                (confirmSnooze (100 * hour) snoozeExample)))"
proof -
  have h1: "queue_ok snoozeExample"
    by (simp add: snoozeExample_eq queue_ok_def sampleBooking_def)
  have h2: "distinct (map bill_id (bookings snoozeExample))"
    by (simp add: snoozeExample_eq)
  have h3: "dueBookingQueue snoozeExample = sampleBooking ''b'' (100 * hour) # []"
    by (simp add: snoozeExample_eq)
  have h4: "snoozeDuration snoozeExample = Some 10"
    by (simp add: snoozeExample_eq)
  have h5: "(10::int) \<noteq> 0"
    by simp
  note th = confirmSnooze_rearms [OF h1 h2 h3 h4 h5, of "100 * hour"]
  have upd: "(sampleBooking ''b'' (100 * hour))\<lparr>date := 100 * hour + 10 * 60000\<rparr> =
             sampleBooking ''b'' (100 * hour + 10 * 60000)"
    by (simp add: sampleBooking_def)
  from th have c1: "bookings (confirmSnooze (100 * hour) snoozeExample)
       = [sampleBooking ''b'' (100 * hour + 10 * 60000)]"
    by (simp add: snoozeExample_eq sampleBooking_def)
  from th have c2: "notifiedBookingIds (confirmSnooze (100 * hour) snoozeExample) = {}"
    by (simp add: snoozeExample_eq sampleBooking_def)
  from th have c3: "dueBookingQueue (confirmSnooze (100 * hour) snoozeExample) = []"
    by simp
  from th have "bill_id (sampleBooking ''b'' (100 * hour)) \<in> bill_id ` set (bookings snoozeExample) \<and>
                  (\<forall>x\<in>set [100 * hour + 5000]. x < 100 * hour + 10 * 60000) \<and>
                  100 * hour + 10 * 60000 \<le> 100 * hour + 10 * 60000 + 3000 \<and>
                  100 * hour + 10 * 60000 + 3000 < 100 * hour + 10 * 60000 + 24 * hour \<longrightarrow>
                  (sampleBooking ''b'' (100 * hour))\<lparr>date := 100 * hour + 10 * 60000\<rparr> \<in>
                    set (dueBookingQueue
                      (run (map Tick [100 * hour + 5000] @ [Tick (100 * hour + 10 * 60000 + 3000)])
                        (confirmSnooze (100 * hour) snoozeExample)))"
    by blast
  then have c4: "sampleBooking ''b'' (100 * hour + 10 * 60000) \<in>
       set (dueBookingQueue
             (run (map Tick [100 * hour + 5000] @ [Tick (100 * hour + 10 * 60000 + 3000)])
                (confirmSnooze (100 * hour) snoozeExample)))"
    unfolding upd by (simp add: snoozeExample_eq hour_def)
  show ?thesis
    by (intro conjI) (rule h1 h2 h3 h4 h5 c1 c2 c3 c4)+
qed

text \<open>
  C2 as stated fails for a tick at or after the new time that comes 24 hours or more
  after it: the booking snoozed at hour 100 to 100h10 is not in the queue after a first
  tick at 124h10, and its id is in the ledger no more than before.
\<close>

theorem snooze_resurface_counterexample:
  "100 * hour + 10 * 60000 \<le> 124 * hour + 10 * 60000
   \<and> bookings (confirmSnooze (100 * hour) snoozeExample)
       = [sampleBooking ''b'' (100 * hour + 10 * 60000)]
   \<and> dueBookingQueue (checkBookings (124 * hour + 10 * 60000)
        (confirmSnooze (100 * hour) snoozeExample)) = []"
  by (simp add: snoozeExample_eq confirmSnooze_def currentDueBooking_def processNextBooking_def
      updateBooking_def checkBookings_def isDue_def isRecent_def sampleBooking_def hour_def)

subsection \<open>Converting a booking into a bill\<close>

lemma strip_and_add:
  "billData.extend ((billData.truncate (b::booking))\<lparr>date := now\<rparr>) (bill.fields newId) =
     b\<lparr>date := now, bill_id := newId\<rparr>"
  by (simp add: billData.defs bill.defs)

lemma strip_id:
  "(billData.truncate (b::booking))\<lparr>date := now\<rparr> =
     \<lparr>customerName = customerName b, date = now, items = items b, bill_total = bill_total b,
      discountValue = discountValue b, discountType = discountType b, bill_note = bill_note b,
      createdAt = createdAt b\<rparr>"
  by (simp add: billData.defs)

lemma deleteBooking_gone: "i \<notin> bill_id ` set (deleteBooking i bs)"
  by (auto simp: deleteBooking_def)

lemma confirmDueBooking_head:
  assumes "dueBookingQueue s = cur # q"
  shows "confirmDueBooking addBill now s =
      processNextBooking
        (s\<lparr>bills := addBill ((billData.truncate cur)\<lparr>date := now\<rparr>) (bills s),
           bookings := deleteBooking (bill_id cur) (bookings s)\<rparr>)"
  using assms by (simp add: confirmDueBooking_def currentDueBooking_def Let_def)

lemma handleConvertToBill_confirmed:
  "handleConvertToBill addBill True now b s =
      s\<lparr>bills := addBill ((billData.truncate b)\<lparr>date := now\<rparr>) (bills s),
        bookings := deleteBooking (bill_id b) (bookings s)\<rparr>"
  by (simp add: handleConvertToBill_def Let_def)

text \<open>
  C4. Confirm on the head \<open>cur\<close> of the queue hands to \<open>addBill\<close> the fields of \<open>cur\<close>
  without the id and with the date replaced by the current time, removes every booking
  with the id of \<open>cur\<close> from the bookings and pops the head; with the \<open>addBill\<close> of the
  spec the bills gain the record \<open>cur\<close> with the new date under the generated id. The
  convert action of the booking list, once the user has agreed, does the same to the
  booking it is given and leaves the queue as it is; without agreement it does nothing.
\<close>

theorem confirm_creates_bill:
  assumes "dueBookingQueue s = cur # q"
  shows "bills (confirmDueBooking addBill now s) =
           addBill \<lparr>customerName = customerName cur, date = now, items = items cur,
                    bill_total = bill_total cur, discountValue = discountValue cur,
                    discountType = discountType cur, bill_note = bill_note cur,
                    createdAt = createdAt cur\<rparr> (bills s)
       \<and> bills (confirmDueBooking (specAddBill newId) now s) =
           cur\<lparr>date := now, bill_id := newId\<rparr> # bills s
       \<and> bookings (confirmDueBooking addBill now s) =
           filter (\<lambda>b. bill_id b \<noteq> bill_id cur) (bookings s)
       \<and> bill_id cur \<notin> bill_id ` set (bookings (confirmDueBooking addBill now s))
       \<and> dueBookingQueue (confirmDueBooking addBill now s) = q
       \<and> bills (handleConvertToBill addBill True now b s) =
           addBill \<lparr>customerName = customerName b, date = now, items = items b,
                    bill_total = bill_total b, discountValue = discountValue b,
                    discountType = discountType b, bill_note = bill_note b,
                    createdAt = createdAt b\<rparr> (bills s)
       \<and> bills (handleConvertToBill (specAddBill newId) True now b s) =
           b\<lparr>date := now, bill_id := newId\<rparr> # bills s
       \<and> bookings (handleConvertToBill addBill True now b s) =
           filter (\<lambda>x. bill_id x \<noteq> bill_id b) (bookings s)
       \<and> bill_id b \<notin> bill_id ` set (bookings (handleConvertToBill addBill True now b s))
       \<and> dueBookingQueue (handleConvertToBill addBill True now b s) = dueBookingQueue s
       \<and> handleConvertToBill addBill False now b s = s"
proof -
  note c = confirmDueBooking_head [OF assms]
  note h = handleConvertToBill_confirmed
  have 1: "bills (confirmDueBooking addBill now s) =
           addBill \<lparr>customerName = customerName cur, date = now, items = items cur,
                    bill_total = bill_total cur, discountValue = discountValue cur,
                    discountType = discountType cur, bill_note = bill_note cur,
                    createdAt = createdAt cur\<rparr> (bills s)"
    by (simp add: c strip_id)
  have 2: "bills (confirmDueBooking (specAddBill newId) now s) =
           cur\<lparr>date := now, bill_id := newId\<rparr> # bills s"
    by (simp add: c specAddBill_def strip_and_add)
  have 3: "bookings (confirmDueBooking addBill now s) =
           filter (\<lambda>b. bill_id b \<noteq> bill_id cur) (bookings s)"
    by (simp add: c deleteBooking_def)
  have 4: "bill_id cur \<notin> bill_id ` set (bookings (confirmDueBooking addBill now s))"
    by (simp add: c deleteBooking_gone)
  have 5: "dueBookingQueue (confirmDueBooking addBill now s) = q"
    by (simp add: c assms)
  have 6: "bills (handleConvertToBill addBill True now b s) =
           addBill \<lparr>customerName = customerName b, date = now, items = items b,
                    bill_total = bill_total b, discountValue = discountValue b,
                    discountType = discountType b, bill_note = bill_note b,
                    createdAt = createdAt b\<rparr> (bills s)"
    by (simp add: h strip_id)
  have 7: "bills (handleConvertToBill (specAddBill newId) True now b s) =
           b\<lparr>date := now, bill_id := newId\<rparr> # bills s"
    by (simp add: h specAddBill_def strip_and_add)
  have 8: "bookings (handleConvertToBill addBill True now b s) =
           filter (\<lambda>x. bill_id x \<noteq> bill_id b) (bookings s)"
    by (simp add: h deleteBooking_def)
  have 9: "bill_id b \<notin> bill_id ` set (bookings (handleConvertToBill addBill True now b s))"
    by (simp add: h deleteBooking_gone)
  have 10: "dueBookingQueue (handleConvertToBill addBill True now b s) = dueBookingQueue s"
    by (simp add: h)
  have 11: "handleConvertToBill addBill False now b s = s"
    by (simp add: handleConvertToBill_def)
  show ?thesis
    by (intro conjI) (rule 1 2 3 4 5 6 7 8 9 10 11)+
qed

theorem confirm_creates_bill_witness:
  "dueBookingQueue snoozeExample = sampleBooking ''b'' (100 * hour) # []
   \<and> bills (confirmDueBooking (specAddBill ''bill-1'') (100 * hour + 7) snoozeExample)
       = [sampleBooking ''bill-1'' (100 * hour + 7)]
   \<and> bookings (confirmDueBooking (specAddBill ''bill-1'') (100 * hour + 7) snoozeExample) = []
   \<and> dueBookingQueue (confirmDueBooking (specAddBill ''bill-1'') (100 * hour + 7) snoozeExample) = []"
proof -
  have h: "dueBookingQueue snoozeExample = sampleBooking ''b'' (100 * hour) # []"
    by (simp add: snoozeExample_eq)
  note th = confirm_creates_bill [OF h, where addBill = "specAddBill ''bill-1''"
      and now = "100 * hour + 7" and newId = "''bill-1''" and b = "sampleBooking ''b'' 0"]
  from th [THEN conjunct2, THEN conjunct1]
  have 1: "bills (confirmDueBooking (specAddBill ''bill-1'') (100 * hour + 7) snoozeExample)
       = [sampleBooking ''bill-1'' (100 * hour + 7)]"
    by (simp add: snoozeExample_eq sampleBooking_def)
  from th [THEN conjunct2, THEN conjunct2, THEN conjunct1]
  have 2:
    "bookings (confirmDueBooking (specAddBill ''bill-1'') (100 * hour + 7) snoozeExample) = []"
    by (simp add: snoozeExample_eq sampleBooking_def)
  from th [THEN conjunct2, THEN conjunct2, THEN conjunct2, THEN conjunct2, THEN conjunct1]
  have 3:
    "dueBookingQueue (confirmDueBooking (specAddBill ''bill-1'') (100 * hour + 7) snoozeExample) = []"
    by simp
  show ?thesis
    by (intro conjI) (rule h 1 2 3)+
qed

subsection \<open>The editor\<close>

lemma isDouble_toDouble: "isDouble (toDouble x)"
  by (cases "toDouble x") (simp_all add: isDouble_def toDouble_idem)

lemma isDouble_js_add: "isDouble (js_add a b)"
  by (cases "(a, b)" rule: js_add.cases) (simp_all add: isDouble_toDouble, simp_all add: isDouble_def)

lemma isDouble_zero: "isDouble (Num 0)"
  by (simp add: isDouble_def toDouble_def)

lemma js_add_zero:
  assumes "isDouble v"
  shows "js_add v (Num 0) = v"
  using assms by (cases v) (simp_all add: isDouble_def)

lemma foldl_skip_zero:
  assumes "isDouble acc" and "\<forall>x\<in>set xs. \<not> P x \<longrightarrow> f x = Num 0"
  shows "foldl (\<lambda>sum x. js_add sum (f x)) acc (filter P xs) =
         foldl (\<lambda>sum x. js_add sum (f x)) acc xs"
  using assms
proof (induction xs arbitrary: acc)
  case Nil
  then show ?case by simp
next
  case (Cons x xs)
  show ?case
  proof (cases "P x")
    case True
    have "isDouble (js_add acc (f x))"
      by (rule isDouble_js_add)
    with Cons True show ?thesis
      by simp
  next
    case False
    with Cons.prems have "js_add acc (f x) = acc"
      by (simp add: js_add_zero)
    with Cons False show ?thesis
      by simp
  qed
qed

lemma sumOfPrices_subtotal: "sumOfPrices its = calculateSubtotal its"
  by (simp add: sumOfPrices_def calculateSubtotal_def foldl_map)

lemma subtotal_of_saved_rows:
  assumes "rows_ok its"
  shows "sumOfPrices (filter (\<lambda>item. serviceId item \<noteq> []) its) = calculateSubtotal its"
proof -
  from assms have "\<forall>item\<in>set its. \<not> serviceId item \<noteq> [] \<longrightarrow> price item = Num 0"
    by (simp add: rows_ok_def)
  with isDouble_zero show ?thesis
    unfolding sumOfPrices_subtotal calculateSubtotal_def by (rule foldl_skip_zero)
qed

lemma find_service_id:
  assumes "find (\<lambda>s. service_id s = i) services = Some service"
  shows "service \<in> set services \<and> service_id service = i"
  using assms by (induction services) (auto split: if_splits)

lemma rows_ok_update:
  assumes "rows_ok its" and "serviceId item \<noteq> []"
  shows "rows_ok (its[index := item])"
proof -
  have "set (its[index := item]) \<subseteq> insert item (set its)"
    by (rule set_update_subset_insert)
  with assms show ?thesis
    unfolding rows_ok_def by blast
qed

lemma rows_ok_handleItemChange:
  assumes "\<forall>sv\<in>set services. service_id sv \<noteq> []" and "rows_ok its"
  shows "rows_ok (handleItemChange services its index sel)"
proof (cases "find (\<lambda>s. service_id s = sel) services")
  case None
  with assms(2) show ?thesis
    by (simp add: handleItemChange_def)
next
  case (Some service)
  with assms(1) have ne: "service_id service \<noteq> []"
    using find_service_id by blast
  show ?thesis
  proof (cases "index < length its")
    case False
    with Some assms(2) show ?thesis
      by (simp add: handleItemChange_def)
  next
    case True
    obtain item' where upd: "handleItemChange services its index sel = its[index := item']"
      and sid: "serviceId item' = service_id service"
      using Some True
      by (cases "priceType service"; cases "variants service"; cases "the (variants service)")
         (simp_all add: handleItemChange_def Let_def)
    from assms(2) ne sid show ?thesis
      unfolding upd by (simp add: rows_ok_update)
  qed
qed

lemma rows_ok_handleVariantChange:
  assumes "\<forall>sv\<in>set services. service_id sv \<noteq> []" and "rows_ok its"
  shows "rows_ok (handleVariantChange services its index vName)"
proof (cases "index < length its")
  case False
  with assms(2) show ?thesis
    by (simp add: handleVariantChange_def)
next
  case True
  show ?thesis
  proof (cases "find (\<lambda>s. service_id s = serviceId (its ! index)) services")
    case None
    with True assms(2) show ?thesis
      by (simp add: handleVariantChange_def Let_def)
  next
    case (Some service)
    with assms(1) have ne: "serviceId (its ! index) \<noteq> []"
      using find_service_id by metis
    show ?thesis
    proof (cases "variants service")
      case None
      with True Some assms(2) show ?thesis
        by (simp add: handleVariantChange_def Let_def)
    next
      case vs: (Some vs)
      show ?thesis
      proof (cases "find (\<lambda>v. variant_name v = vName) vs")
        case None
        with True Some vs assms(2) show ?thesis
          by (simp add: handleVariantChange_def Let_def)
      next
        case v: (Some v)
        have "rows_ok (its[index := (its ! index)\<lparr>price := js_mul (variant_price v) (quantity (its ! index)),
                                          variantName := Some (variant_name v)\<rparr>])"
          using assms(2) by (rule rows_ok_update) (simp add: ne)
        with True Some vs v show ?thesis
          by (simp add: handleVariantChange_def Let_def)
      qed
    qed
  qed
qed

lemma rows_ok_handleQuantityChange:
  assumes "\<forall>sv\<in>set services. service_id sv \<noteq> []" and "rows_ok its"
  shows "rows_ok (handleQuantityChange services its index newQuantity)"
proof (cases "index < length its")
  case False
  with assms(2) show ?thesis
    by (simp add: handleQuantityChange_def)
next
  case True
  show ?thesis
  proof (cases "find (\<lambda>s. service_id s = serviceId (its ! index)) services")
    case None
    with True assms(2) show ?thesis
      by (simp add: handleQuantityChange_def Let_def)
  next
    case (Some service)
    with assms(1) have ne: "serviceId (its ! index) \<noteq> []"
      using find_service_id by metis
    have "\<And>q p. rows_ok (its[index := (its ! index)\<lparr>quantity := q, price := p\<rparr>])"
      using assms(2) by (rule rows_ok_update) (simp add: ne)
    with True Some show ?thesis
      by (simp add: handleQuantityChange_def Let_def)
  qed
qed

lemma editorItems_rows_ok:
  assumes "\<forall>sv\<in>set services. service_id sv \<noteq> []" and "editorItems services its"
  shows "rows_ok its"
  using assms(2)
proof (induction rule: editorItems.induct)
  case (new_rows tempId)
  show ?case by (simp add: rows_ok_def emptyItem_def)
next
  case (loaded_rows its)
  then show ?case by (simp add: rows_ok_def enrichedItems_def)
next
  case (item_changed its index sel)
  with assms(1) show ?case by (simp add: rows_ok_handleItemChange)
next
  case (variant_changed its index vName)
  with assms(1) show ?case by (simp add: rows_ok_handleVariantChange)
next
  case (quantity_changed its index newQuantity)
  with assms(1) show ?case by (simp add: rows_ok_handleQuantityChange)
next
  case (item_added its tempId)
  then show ?case by (simp add: rows_ok_def addItem_def emptyItem_def)
next
  case (item_removed its index)
  then show ?case
    by (auto simp: rows_ok_def removeItem_def dest: in_set_takeD in_set_dropD)
qed


lemma toDouble_whole:
  assumes "x = of_int n" and "\<bar>n\<bar> \<le> 2 ^ 53"
  shows "toDouble x = Num x"
  using toDouble_of_int [OF assms(2)] assms(1) by simp

lemma whole_numbers:
  "toDouble 200000 = Num 200000" "toDouble 180000 = Num 180000" "toDouble 50 = Num 50"
  "toDouble 36 = Num 36"
  by (rule toDouble_whole [of _ 200000] toDouble_whole [of _ 180000] toDouble_whole [of _ 50]
      toDouble_whole [of _ 36]; simp)+

lemma ten_percent: "js_div (Num 10) (Num 100) = Num (3602879701896397 / 36028797018963968)"
  using toDouble_eqI [of "- 4" "10 / 100" 7205759403792794] by simp

lemma ten_percent_of_200000:
  "js_mul (Num 200000) (Num (3602879701896397 / 36028797018963968)) = Num 20000"
  using toDouble_eqI [of 14 "200000 * (3602879701896397 / 36028797018963968)" 5497558138880000]
  by simp

lemma twenty_nine_percent:
  "js_div (Num 29) (Num 100) = Num (5224175567749775 / 18014398509481984)"
  using toDouble_eqI [of "- 2" "29 / 100" 5224175567749775] by simp

lemma twenty_nine_percent_of_50:
  "js_mul (Num 50) (Num (5224175567749775 / 18014398509481984)) =
     Num (8162774324609023 / 562949953421312)"
  using toDouble_eqI [of 3 "50 * (5224175567749775 / 18014398509481984)" 8162774324609023]
  by simp

lemma Math_round_whole: "Math_round (Num (of_int n)) = Num (of_int n)"
proof -
  have "\<lfloor>(of_int n :: rat) + 1 / 2\<rfloor> = n"
    by (rule floor_unique) simp_all
  then show ?thesis
    by simp
qed

lemma Math_round_20000: "Math_round (Num 20000) = Num 20000"
  using Math_round_whole [of 20000] by simp

lemma Math_round_below_half:
  "Math_round (Num (8162774324609023 / 562949953421312)) = Num 14"
proof -
  have "\<lfloor>(8162774324609023 / 562949953421312 :: rat) + 1 / 2\<rfloor> = 14"
    by (rule floor_unique) simp_all
  then show ?thesis
    by simp
qed

lemma twoServiceA_eq:
  "twoServiceA =
     [\<lparr>item_id = ''temp-1'', serviceId = ''svc-A'', item_name = ''Service A'',
       price = Num 200000, quantity = Num 2, variantName = None\<rparr>]"
  by (simp add: twoServiceA_def handleQuantityChange_def handleItemChange_def serviceA_def
      emptyItem_def whole_numbers)

lemma oneService50_eq:
  "oneService50 =
     [\<lparr>item_id = ''temp-1'', serviceId = ''svc-50'', item_name = ''Service 50'',
       price = Num 50, quantity = Num 1, variantName = None\<rparr>]"
  by (simp add: oneService50_def handleItemChange_def service50_def emptyItem_def)

lemma subtotal_twoServiceA: "calculateSubtotal twoServiceA = Num 200000"
  by (simp add: twoServiceA_eq calculateSubtotal_def whole_numbers)

lemma discount_twoServiceA: "calculateDiscountAmount twoServiceA Percent (Num 10) = Num 20000"
  by (simp only: calculateDiscountAmount_def subtotal_twoServiceA Let_def ten_percent
      ten_percent_of_200000 Math_round_20000) simp

lemma total_twoServiceA: "calculateTotal twoServiceA Percent (Num 10) = Num 180000"
  by (simp add: calculateTotal_def subtotal_twoServiceA discount_twoServiceA js_sub_def
      whole_numbers)

lemma subtotal_oneService50: "calculateSubtotal oneService50 = Num 50"
  by (simp add: oneService50_eq calculateSubtotal_def whole_numbers)

lemma discount_oneService50: "calculateDiscountAmount oneService50 Percent (Num 29) = Num 14"
  by (simp only: calculateDiscountAmount_def subtotal_oneService50 Let_def twenty_nine_percent
      twenty_nine_percent_of_50 Math_round_below_half) simp

lemma saved_twoServiceA:
  "filter (\<lambda>item. serviceId item \<noteq> []) twoServiceA = twoServiceA" "twoServiceA \<noteq> []"
  by (simp_all add: twoServiceA_eq)

lemma scenarioForm_fields:
  "ed_customerName (scenarioForm z now dType dValue) = ''Anna''"
  "ed_items (scenarioForm z now dType dValue) = twoServiceA"
  "ed_note (scenarioForm z now dType dValue) = []"
  "ed_discountValue (scenarioForm z now dType dValue) = dValue"
  "ed_discountType (scenarioForm z now dType dValue) = dType"
  "ed_date (scenarioForm z now dType dValue) = getTodayDateString z now"
  "ed_time (scenarioForm z now dType dValue) = getCurrentTimeString z now"
  by (simp_all add: scenarioForm_def initEditor_def)

lemma handleSubmit_saved:
  assumes "handleSubmit trim z isBooking bill now st = Inr b"
  shows "items b = filter (\<lambda>item. serviceId item \<noteq> []) (ed_items st)"
    and "bill_total b = calculateTotal (ed_items st) (ed_discountType st) (ed_discountValue st)"
    and "discountValue b = ed_discountValue st"
    and "discountType b = ed_discountType st"
    and "date b = finalDateOf z st"
  using assms by (auto simp: handleSubmit_def Let_def split: if_splits)

lemma asciiTrim_Anna: "asciiTrim ''Anna'' = ''Anna''" "asciiTrim [] = []"
  by (simp_all add: asciiTrim_def isAsciiWhiteSpace_def)

text \<open>
  C5 (as amended). For the record \<open>b\<close> an editor session saves, over a catalogue
  without empty ids: \<open>total = max(0, sum of item.price over its items - discountAmount)\<close>
  in double arithmetic, where \<open>discountAmount\<close> is \<open>discountValue\<close> for the type amount
  and \<open>Math.round(subtotal * (discountValue / 100))\<close> for the type percent: the quotient
  is rounded to a double before the product, and the product is rounded before
  \<open>Math.round\<close>. Two units of Service A (fixed price 100000) give one item of price
  200000, subtotal 200000 and total 200000 without discount; with 10 percent the
  discount is 20000 and the total 180000.
\<close>

theorem editor_total:
  assumes "\<forall>sv\<in>set services. service_id sv \<noteq> []"
    and "editorItems services (ed_items st)"
    and "handleSubmit trim z isBooking bill now st = Inr b"
  shows "bill_total b =
           Math_max (Num 0)
             (js_sub (sumOfPrices (items b))
                (if discountType b = Amount then discountValue b
                 else Math_round (js_mul (sumOfPrices (items b))
                                    (js_div (discountValue b) (Num 100)))))
       \<and> map price twoServiceA = [Num 200000]
       \<and> map quantity twoServiceA = [Num 2]
       \<and> calculateSubtotal twoServiceA = Num 200000
       \<and> calculateTotal twoServiceA Amount (Num 0) = Num 200000
       \<and> calculateDiscountAmount twoServiceA Percent (Num 10) = Num 20000
       \<and> calculateTotal twoServiceA Percent (Num 10) = Num 180000"
proof -
  from assms(1,2) have "rows_ok (ed_items st)"
    by (rule editorItems_rows_ok)
  then have sub: "sumOfPrices (items b) = calculateSubtotal (ed_items st)"
    unfolding handleSubmit_saved(1) [OF assms(3)] by (rule subtotal_of_saved_rows)
  have 1: "bill_total b =
           Math_max (Num 0)
             (js_sub (sumOfPrices (items b))
                (if discountType b = Amount then discountValue b
                 else Math_round (js_mul (sumOfPrices (items b))
                                    (js_div (discountValue b) (Num 100)))))"
    unfolding sub handleSubmit_saved(2,3,4) [OF assms(3)]
    by (cases "ed_discountType st")
       (simp_all add: calculateTotal_def calculateDiscountAmount_def Let_def)
  have 2: "map price twoServiceA = [Num 200000]" and 3: "map quantity twoServiceA = [Num 2]"
    by (simp_all add: twoServiceA_eq)
  have 4: "calculateSubtotal twoServiceA = Num 200000"
    by (rule subtotal_twoServiceA)
  have 5: "calculateTotal twoServiceA Amount (Num 0) = Num 200000"
    by (simp add: calculateTotal_def calculateDiscountAmount_def 4 js_sub_def whole_numbers)
  have 6: "calculateDiscountAmount twoServiceA Percent (Num 10) = Num 20000"
    by (rule discount_twoServiceA)
  have 7: "calculateTotal twoServiceA Percent (Num 10) = Num 180000"
    by (rule total_twoServiceA)
  show ?thesis
    by (intro conjI) (rule 1 2 3 4 5 6 7)+
qed

theorem editor_total_witness:
  "service_id serviceA \<noteq> []
   \<and> editorItems [serviceA] (ed_items (scenarioForm (fixedZone 0) 1000 Percent (Num 10)))
   \<and> handleSubmit asciiTrim (fixedZone 0) False None 1000
        (scenarioForm (fixedZone 0) 1000 Percent (Num 10)) =
       Inr \<lparr>customerName = ''Anna'', date = 0, items = twoServiceA, bill_total = Num 180000,
            discountValue = Num 10, discountType = Percent, bill_note = [], createdAt = None,
            bill_id = []\<rparr>
   \<and> Num 180000 =
       Math_max (Num 0)
         (js_sub (sumOfPrices twoServiceA)
            (Math_round (js_mul (sumOfPrices twoServiceA) (js_div (Num 10) (Num 100)))))"
proof -
  let ?st = "scenarioForm (fixedZone 0) 1000 Percent (Num 10)"
  let ?b = "\<lparr>customerName = ''Anna'', date = 0, items = twoServiceA, bill_total = Num 180000,
            discountValue = Num 10, discountType = Percent, bill_note = [], createdAt = None,
            bill_id = []\<rparr>"
  have h1: "\<forall>sv\<in>set [serviceA]. service_id sv \<noteq> []"
    by (simp add: serviceA_def)
  have "editorItems [serviceA] twoServiceA"
    unfolding twoServiceA_def
    by (rule editorItems.quantity_changed, rule editorItems.item_changed,
        rule editorItems.new_rows) (simp_all add: handleItemChange_def serviceA_def)
  then have h2: "editorItems [serviceA] (ed_items ?st)"
    by (simp add: scenarioForm_fields)
  note t = total_twoServiceA
  have f: "finalDateOf (fixedZone 0) ?st = 0"
    by (simp add: finalDateOf_def scenarioForm_fields getTodayDateString_def
        getCurrentTimeString_def getHours_def getMinutes_def setHours_def parseDateOnly_def
        LocalTime_def UTC_def fixedZone_def Day_def MakeDate_def MakeTime_def HourFromTime_def
        MinFromTime_def msPerDay_def)
  have h3: "handleSubmit asciiTrim (fixedZone 0) False None 1000 ?st = Inr ?b"
    by (simp add: handleSubmit_def Let_def f t scenarioForm_fields saved_twoServiceA
        asciiTrim_Anna)
  from editor_total [OF h1 h2 h3, THEN conjunct1]
  have c: "Num 180000 =
       Math_max (Num 0)
         (js_sub (sumOfPrices twoServiceA)
            (Math_round (js_mul (sumOfPrices twoServiceA) (js_div (Num 10) (Num 100)))))"
    by simp
  from h1 have "service_id serviceA \<noteq> []"
    by simp
  with h2 h3 c show ?thesis
    by (intro conjI)
qed

text \<open>
  C5 as stated fails in double arithmetic: for one service at the price 50 and a
  discount of 29 percent the code takes \<open>29 / 100\<close> first, a double below 0.29, so the
  product is below 14.5 and the discount is 14, the total 36; the formula of the
  claim, \<open>round(50 * 29 / 100)\<close>, is 15 and gives 35.
\<close>

theorem discount_rounding_counterexample:
  "map price oneService50 = [Num 50]
   \<and> calculateSubtotal oneService50 = Num 50
   \<and> calculateDiscountAmount oneService50 Percent (Num 29) = Num 14
   \<and> calculateTotal oneService50 Percent (Num 29) = Num 36
   \<and> \<lfloor>(50::rat) * 29 / 100 + 1 / 2\<rfloor> = 15
   \<and> max 0 (50 - of_int \<lfloor>(50::rat) * 29 / 100 + 1 / 2\<rfloor>) = (35::rat)"
proof -
  have 1: "map price oneService50 = [Num 50]"
    by (simp add: oneService50_eq)
  have 2: "calculateSubtotal oneService50 = Num 50"
    by (rule subtotal_oneService50)
  have 3: "calculateDiscountAmount oneService50 Percent (Num 29) = Num 14"
    by (rule discount_oneService50)
  have 4: "calculateTotal oneService50 Percent (Num 29) = Num 36"
    by (simp add: calculateTotal_def 2 3 js_sub_def whole_numbers)
  have 5: "\<lfloor>(50::rat) * 29 / 100 + 1 / 2\<rfloor> = 15"
    by (rule floor_unique) simp_all
  have 6: "max 0 (50 - of_int \<lfloor>(50::rat) * 29 / 100 + 1 / 2\<rfloor>) = (35::rat)"
    unfolding 5 by simp
  show ?thesis
    by (intro conjI) (rule 1 2 3 4 5 6)+
qed

lemma handleSubmit_blank_name:
  assumes "trim (ed_customerName st) = []"
  shows "handleSubmit trim z isBooking bill now st = Inl MissingCustomerName"
  using assms by (simp add: handleSubmit_def Let_def)

lemma handleSubmit_no_items:
  assumes "\<forall>item\<in>set (ed_items st). serviceId item = []"
  shows "handleSubmit trim z isBooking bill now st =
           (if trim (ed_customerName st) = [] then Inl MissingCustomerName else Inl NoValidService)"
proof -
  from assms have "filter (\<lambda>item. serviceId item \<noteq> []) (ed_items st) = []"
    by (simp add: filter_empty_conv)
  then show ?thesis
    by (simp add: handleSubmit_def Let_def)
qed

lemma handleSubmit_past:
  assumes "isBooking" and "now - finalDateOf z st > 60000"
  shows "isl (handleSubmit trim z isBooking bill now st)"
proof -
  from assms have "finalDateOf z st < now"
    by simp
  with assms show ?thesis
    by (simp add: handleSubmit_def Let_def)
qed

lemma handleSubmit_accepts:
  assumes "trim (ed_customerName st) \<noteq> []"
    and "\<exists>item\<in>set (ed_items st). serviceId item \<noteq> []"
    and "\<not> (isBooking \<and> now - finalDateOf z st > 60000)"
  shows "\<exists>b. handleSubmit trim z isBooking bill now st = Inr b \<and> date b = finalDateOf z st"
proof -
  from assms(2) have "filter (\<lambda>item. serviceId item \<noteq> []) (ed_items st) \<noteq> []"
    by (simp add: filter_empty_conv)
  with assms(1,3) show ?thesis
    by (auto simp: handleSubmit_def Let_def)
qed

text \<open>
  The instant \<open>handleSubmit\<close> builds is the chosen local date and time when the UTC
  midnight of the chosen date falls on that date in local time, as it does in the
  zones at or east of UTC; in a zone with an offset \<open>c\<close> west of UTC it is the chosen
  time on the day before.
\<close>

lemma finalDateOf_same_day:
  assumes "Day (LocalTime z (parseDateOnly (ed_date st))) = ed_date st" and "ed_time st = (h, m)"
  shows "finalDateOf z st = UTC z (MakeDate (ed_date st) (MakeTime h m 0 0))"
  using assms by (simp add: finalDateOf_def setHours_def Let_def)

lemma finalDateOf_west:
  assumes "- msPerDay \<le> c" and "c < 0" and "ed_time st = (h, m)"
  shows "finalDateOf (fixedZone c) st =
           UTC (fixedZone c) (MakeDate (ed_date st) (MakeTime h m 0 0)) - msPerDay"
proof -
  have "(ed_date st * msPerDay + c) div msPerDay = ed_date st - 1"
  proof -
    have pos: "msPerDay \<noteq> 0"
      by (simp add: msPerDay_def)
    have "ed_date st * msPerDay + c = (c + msPerDay) + (ed_date st - 1) * msPerDay"
      by (simp add: algebra_simps)
    then have "(ed_date st * msPerDay + c) div msPerDay =
               (c + msPerDay) div msPerDay + (ed_date st - 1)"
      by (simp only: div_add_days [OF pos])
    also have "(c + msPerDay) div msPerDay = 0"
      by (rule div_pos_pos_trivial) (use assms(1,2) in simp_all)
    finally show ?thesis
      by simp
  qed
  then have d: "Day (LocalTime (fixedZone c) (parseDateOnly (ed_date st))) = ed_date st - 1"
    by (simp add: Day_def LocalTime_def parseDateOnly_def MakeDate_def fixedZone_def)
  have "finalDateOf (fixedZone c) st =
          UTC (fixedZone c) (MakeDate (ed_date st - 1) (MakeTime h m 0 0))"
    using assms(3) by (simp add: finalDateOf_def setHours_def Let_def d)
  also have "\<dots> = UTC (fixedZone c) (MakeDate (ed_date st) (MakeTime h m 0 0)) - msPerDay"
    by (simp add: UTC_def MakeDate_def fixedZone_def algebra_simps)
  finally show ?thesis .
qed

lemma bookingAhead_fields:
  "ed_customerName bookingAhead = ''Anna''" "ed_items bookingAhead = twoServiceA"
  "ed_date bookingAhead = 19884" "ed_time bookingAhead = (15, 30)"
proof -
  have "((1718047800000 + - 5 * hour) :: int) div msPerDay = 19884"
    by (simp add: hour_def msPerDay_def)
  then show "ed_date bookingAhead = 19884"
    by (simp add: bookingAhead_def scenarioForm_fields getTodayDateString_def Day_def
        LocalTime_def fixedZone_def)
qed (simp_all add: bookingAhead_def scenarioForm_fields)

text \<open>
  C9. The handler refuses a blank customer name, a form without a selected service
  and, for a booking, an instant more than 60000 ms before the clock (the three lemmas
  above). The instant is \<open>new Date(date)\<close>, the UTC midnight of the date field, after
  \<open>setHours\<close>, which sets the local time of day: west of UTC that is the chosen time
  on the day before the chosen date. At UTC-5, on 10 June 2024 at 14:30 local time
  (19:30 UTC), the form of a new booking carries the local date, day 19884; with the
  time field at 15:30 the chosen local instant is one hour after the clock, the
  handler builds an instant 23 hours before the clock and refuses the booking.
\<close>

theorem booking_ahead_refused:
  "getTodayDateString (fixedZone (- 5 * hour)) 1718047800000 = 19884
   \<and> getCurrentTimeString (fixedZone (- 5 * hour)) 1718047800000 = (14, 30)
   \<and> ed_date bookingAhead = 19884
   \<and> ed_time bookingAhead = (15, 30)
   \<and> UTC (fixedZone (- 5 * hour)) (MakeDate 19884 (MakeTime 15 30 0 0)) = 1718047800000 + hour
   \<and> finalDateOf (fixedZone (- 5 * hour)) bookingAhead = 1718047800000 - 23 * hour
   \<and> handleSubmit asciiTrim (fixedZone (- 5 * hour)) True None 1718047800000 bookingAhead
       = Inl BookingInPast"
proof -
  have 1: "getTodayDateString (fixedZone (- 5 * hour)) 1718047800000 = 19884"
    by (simp add: getTodayDateString_def Day_def LocalTime_def fixedZone_def hour_def
        msPerDay_def)
  have 2: "getCurrentTimeString (fixedZone (- 5 * hour)) 1718047800000 = (14, 30)"
    by (simp add: getCurrentTimeString_def getHours_def getMinutes_def HourFromTime_def
        MinFromTime_def LocalTime_def fixedZone_def hour_def)
  note 3 = bookingAhead_fields(3) and 4 = bookingAhead_fields(4)
  have 5: "UTC (fixedZone (- 5 * hour)) (MakeDate 19884 (MakeTime 15 30 0 0)) =
           1718047800000 + hour"
    by (simp add: UTC_def MakeDate_def MakeTime_def fixedZone_def hour_def msPerDay_def)
  have "finalDateOf (fixedZone (- 5 * hour)) bookingAhead =
          UTC (fixedZone (- 5 * hour)) (MakeDate (ed_date bookingAhead) (MakeTime 15 30 0 0))
            - msPerDay"
    by (rule finalDateOf_west) (simp_all add: hour_def msPerDay_def bookingAhead_fields)
  also have "\<dots> = (1718047800000 + hour) - msPerDay"
    by (simp only: 3 5)
  also have "\<dots> = 1718047800000 - 23 * hour"
    by (simp add: hour_def msPerDay_def)
  finally have 6: "finalDateOf (fixedZone (- 5 * hour)) bookingAhead =
                   1718047800000 - 23 * hour" .
  from 6 have "now - finalDateOf (fixedZone (- 5 * hour)) bookingAhead > 60000"
    if "now = 1718047800000" for now
    using that by (simp add: hour_def)
  then have 7: "handleSubmit asciiTrim (fixedZone (- 5 * hour)) True None 1718047800000 bookingAhead
             = Inl BookingInPast"
    by (simp add: handleSubmit_def Let_def bookingAhead_fields asciiTrim_Anna saved_twoServiceA)
  show ?thesis
    by (intro conjI) (rule 1 2 3 4 5 6 7)+
qed

text \<open>
  C10. Converting a booking (Confirm on the head of the queue, or the convert action of
  the list) strips nothing but the id: the record handed to \<open>addBill\<close> has the booking's
  \<open>createdAt\<close>, items, total, discount fields, note and customer name, and so has the
  bill stored by the \<open>addBill\<close> of the spec. A record the editor saves as a bill, not as
  a booking, has no \<open>createdAt\<close>.
\<close>

theorem converted_bill_keeps_createdAt:
  assumes "dueBookingQueue s = cur # q"
  shows "(\<exists>newBill. bills (confirmDueBooking addBill now s) = addBill newBill (bills s)
            \<and> createdAt newBill = createdAt cur \<and> items newBill = items cur
            \<and> bill_total newBill = bill_total cur \<and> discountValue newBill = discountValue cur
            \<and> discountType newBill = discountType cur \<and> bill_note newBill = bill_note cur
            \<and> customerName newBill = customerName cur)
       \<and> (\<exists>newBill. bills (handleConvertToBill addBill True now b s) = addBill newBill (bills s)
            \<and> createdAt newBill = createdAt b \<and> items newBill = items b
            \<and> bill_total newBill = bill_total b \<and> discountValue newBill = discountValue b
            \<and> discountType newBill = discountType b \<and> bill_note newBill = bill_note b
            \<and> customerName newBill = customerName b)
       \<and> (\<exists>stored. bills (confirmDueBooking (specAddBill newId) now s) = stored # bills s
            \<and> createdAt stored = createdAt cur \<and> items stored = items cur
            \<and> bill_total stored = bill_total cur \<and> discountValue stored = discountValue cur
            \<and> discountType stored = discountType cur \<and> bill_note stored = bill_note cur
            \<and> customerName stored = customerName cur)
       \<and> (\<exists>stored. bills (handleConvertToBill (specAddBill newId) True now b s) = stored # bills s
            \<and> createdAt stored = createdAt b \<and> items stored = items b
            \<and> bill_total stored = bill_total b \<and> discountValue stored = discountValue b
            \<and> discountType stored = discountType b \<and> bill_note stored = bill_note b
            \<and> customerName stored = customerName b)
       \<and> (\<forall>saved. handleSubmit trim z False bill now st = Inr saved \<longrightarrow>
             createdAt saved = None)"
proof -
  have 1: "bills (confirmDueBooking addBill now s) =
           addBill ((billData.truncate cur)\<lparr>date := now\<rparr>) (bills s)" for addBill
    by (simp add: confirmDueBooking_head [OF assms])
  have 2: "bills (handleConvertToBill addBill True now b s) =
           addBill ((billData.truncate b)\<lparr>date := now\<rparr>) (bills s)" for addBill
    by (simp add: handleConvertToBill_confirmed)
  have f: "createdAt ((billData.truncate x)\<lparr>date := now\<rparr>) = createdAt x \<and>
           items ((billData.truncate x)\<lparr>date := now\<rparr>) = items x \<and>
           bill_total ((billData.truncate x)\<lparr>date := now\<rparr>) = bill_total x \<and>
           discountValue ((billData.truncate x)\<lparr>date := now\<rparr>) = discountValue x \<and>
           discountType ((billData.truncate x)\<lparr>date := now\<rparr>) = discountType x \<and>
           bill_note ((billData.truncate x)\<lparr>date := now\<rparr>) = bill_note x \<and>
           customerName ((billData.truncate x)\<lparr>date := now\<rparr>) = customerName x"
    for x :: booking
    by (simp add: strip_id)
  have a: "\<exists>newBill. bills (confirmDueBooking addBill now s) = addBill newBill (bills s)
            \<and> createdAt newBill = createdAt cur \<and> items newBill = items cur
            \<and> bill_total newBill = bill_total cur \<and> discountValue newBill = discountValue cur
            \<and> discountType newBill = discountType cur \<and> bill_note newBill = bill_note cur
            \<and> customerName newBill = customerName cur"
    using 1 [of addBill] f [of cur] by blast
  have b: "\<exists>newBill. bills (handleConvertToBill addBill True now b s) = addBill newBill (bills s)
            \<and> createdAt newBill = createdAt b \<and> items newBill = items b
            \<and> bill_total newBill = bill_total b \<and> discountValue newBill = discountValue b
            \<and> discountType newBill = discountType b \<and> bill_note newBill = bill_note b
            \<and> customerName newBill = customerName b"
    using 2 [of addBill] f [of b] by blast
  have c: "\<exists>stored. bills (confirmDueBooking (specAddBill newId) now s) = stored # bills s
            \<and> createdAt stored = createdAt cur \<and> items stored = items cur
            \<and> bill_total stored = bill_total cur \<and> discountValue stored = discountValue cur
            \<and> discountType stored = discountType cur \<and> bill_note stored = bill_note cur
            \<and> customerName stored = customerName cur"
    by (simp add: 1 specAddBill_def strip_and_add)
  have d: "\<exists>stored. bills (handleConvertToBill (specAddBill newId) True now b s) = stored # bills s
            \<and> createdAt stored = createdAt b \<and> items stored = items b
            \<and> bill_total stored = bill_total b \<and> discountValue stored = discountValue b
            \<and> discountType stored = discountType b \<and> bill_note stored = bill_note b
            \<and> customerName stored = customerName b"
    by (simp add: 2 specAddBill_def strip_and_add)
  have e: "\<forall>saved. handleSubmit trim z False bill now st = Inr saved \<longrightarrow>
             createdAt saved = None"
    by (auto simp: handleSubmit_def Let_def split: if_splits option.splits)
  show ?thesis
    by (intro conjI) (rule a b c d e)+
qed

theorem converted_bill_keeps_createdAt_witness:
  "dueBookingQueue snoozeExample = sampleBooking ''b'' (100 * hour) # []
   \<and> createdAt (sampleBooking ''b'' (100 * hour)) = Some 0
   \<and> map createdAt (bills (confirmDueBooking (specAddBill ''bill-9'') (101 * hour) snoozeExample))
       = [Some 0]"
proof -
  have h: "dueBookingQueue snoozeExample = sampleBooking ''b'' (100 * hour) # []"
    by (simp add: snoozeExample_eq)
  have c: "createdAt (sampleBooking ''b'' (100 * hour)) = Some 0"
    by (simp add: sampleBooking_def)
  from converted_bill_keeps_createdAt [OF h, where addBill = "specAddBill ''bill-9''"
      and now = "101 * hour" and newId = "''bill-9''" and b = "sampleBooking ''b'' 0"
      and bill = None and trim = asciiTrim and z = "fixedZone 0"
      and st = "scenarioForm (fixedZone 0) 0 Amount (Num 0)"]
  obtain stored where
    "bills (confirmDueBooking (specAddBill ''bill-9'') (101 * hour) snoozeExample) =
       stored # bills snoozeExample"
    and "createdAt stored = createdAt (sampleBooking ''b'' (100 * hour))"
    by blast
  then have "map createdAt (bills (confirmDueBooking (specAddBill ''bill-9'') (101 * hour)
       snoozeExample)) = [Some 0]"
    by (simp add: c snoozeExample_eq)
  with h c show ?thesis
    by (intro conjI)
qed

subsection \<open>The week window\<close>

lemma Day_MakeDate: "Day (MakeDate d 0) = d" "TimeWithinDay (MakeDate d 0) = 0"
  by (simp_all add: Day_def TimeWithinDay_def MakeDate_def msPerDay_def)

lemma MakeDate_Day: "TimeWithinDay t = 0 \<Longrightarrow> MakeDate (Day t) 0 = t"
  by (simp add: Day_def TimeWithinDay_def MakeDate_def) (metis mod_0_imp_dvd dvd_div_mult_self)

lemma MakeDate_add: "MakeDate (d + k) t = MakeDate d 0 + k * msPerDay + t"
  by (simp add: MakeDate_def algebra_simps)

lemma monday_of_week:
  fixes D :: int
  shows "(D - ((D + 4) mod 7 + 6) mod 7 + 4) mod 7 = 1"
  by presburger

lemma currentDay_monday:
  fixes w :: int
  assumes "0 \<le> w" and "w < 7"
  shows "- (if w = 0 then 7 else w) + 1 = - ((w + 6) mod 7)"
  using assms by presburger

lemma WeekDay_range: "0 \<le> WeekDay t \<and> WeekDay t < 7"
  by (simp add: WeekDay_def)

lemma mondayLocal_props:
  "WeekDay (mondayLocal z today) = 1"
  "TimeWithinDay (mondayLocal z today) = 0"
  "Day (mondayLocal z today) \<le> Day (LocalTime z today)"
  "Day (LocalTime z today) < Day (mondayLocal z today) + 7"
proof -
  define D where "D = Day (LocalTime z today)"
  have m: "mondayLocal z today = MakeDate (D - ((D + 4) mod 7 + 6) mod 7) 0"
    by (simp add: mondayLocal_def WeekDay_def D_def)
  show "WeekDay (mondayLocal z today) = 1"
    unfolding m WeekDay_def Day_MakeDate by (rule monday_of_week)
  show "TimeWithinDay (mondayLocal z today) = 0"
    unfolding m by (rule Day_MakeDate)
  have "0 \<le> ((D + 4) mod 7 + 6) mod 7" and "((D + 4) mod 7 + 6) mod 7 < 7"
    by simp_all
  then show "Day (mondayLocal z today) \<le> Day (LocalTime z today)"
    and "Day (LocalTime z today) < Day (mondayLocal z today) + 7"
    unfolding m Day_MakeDate D_def [symmetric] by simp_all
qed

lemma next_monday:
  "WeekDay (mondayLocal z today + 7 * msPerDay) = 1"
  "TimeWithinDay (mondayLocal z today + 7 * msPerDay) = 0"
proof -
  have pos: "msPerDay \<noteq> 0"
    by (simp add: msPerDay_def)
  have "Day (mondayLocal z today + 7 * msPerDay) = Day (mondayLocal z today) + 7"
    unfolding Day_def by (rule div_add_days [OF pos])
  moreover have "(Day (mondayLocal z today) + 4) mod 7 = 1"
    using mondayLocal_props(1) [of z today] by (simp add: WeekDay_def)
  then have "(Day (mondayLocal z today) + 7 + 4) mod 7 = 1"
    by presburger
  ultimately show "WeekDay (mondayLocal z today + 7 * msPerDay) = 1"
    by (simp add: WeekDay_def)
  show "TimeWithinDay (mondayLocal z today + 7 * msPerDay) = 0"
    using mondayLocal_props(2) [of z today] by (simp add: TimeWithinDay_def)
qed

lemma setDateBy_monday:
  "setDateBy z today (- (if getDay z today = 0 then 7 else getDay z today) + 1) =
     UTC z (mondayLocal z today + TimeWithinDay (LocalTime z today))"
proof -
  let ?w = "WeekDay (LocalTime z today)"
  have "- (if ?w = 0 then 7 else ?w) + 1 = - ((?w + 6) mod 7)"
    using WeekDay_range [of "LocalTime z today"] by (intro currentDay_monday) simp_all
  then have "setDateBy z today (- (if getDay z today = 0 then 7 else getDay z today) + 1) =
             setDateBy z today (- ((?w + 6) mod 7))"
    unfolding getDay_def by (simp only:)
  also have "\<dots> = UTC z (mondayLocal z today + TimeWithinDay (LocalTime z today))"
    by (simp add: setDateBy_def mondayLocal_def MakeDate_def Let_def)
  finally show ?thesis .
qed

lemma startOfWeek_monday:
  assumes "Day (LocalTime z (UTC z (mondayLocal z today + TimeWithinDay (LocalTime z today)))) =
           Day (mondayLocal z today)"
  shows "startOfWeek z today = UTC z (mondayLocal z today)"
proof -
  have "startOfWeek z today =
          UTC z (MakeDate (Day (mondayLocal z today)) (MakeTime 0 0 0 0))"
    unfolding startOfWeek_def Let_def setDateBy_monday by (simp add: setHours_def assms)
  also have "MakeTime 0 0 0 0 = 0"
    by (simp add: MakeTime_def)
  also have "MakeDate (Day (mondayLocal z today)) 0 = mondayLocal z today"
    by (rule MakeDate_Day) (rule mondayLocal_props)
  finally show ?thesis .
qed

lemma endOfWeek_monday:
  assumes "startOfWeek z today = UTC z (mondayLocal z today)"
    and "LocalTime z (UTC z (mondayLocal z today)) = mondayLocal z today"
  shows "endOfWeek z today = UTC z (mondayLocal z today + 7 * msPerDay)"
proof -
  have "MakeDate (Day (mondayLocal z today) + 7) (TimeWithinDay (mondayLocal z today)) =
        mondayLocal z today + 7 * msPerDay"
    unfolding MakeDate_add
    by (simp add: mondayLocal_props(2) MakeDate_Day)
  then show ?thesis
    by (simp add: endOfWeek_def setDateBy_def assms Let_def)
qed

lemma foldl_totals:
  "foldl (\<lambda>sum bill. js_add sum (bill_total bill)) a bs = foldl js_add a (map bill_total bs)"
  by (simp add: foldl_map)

text \<open>
  In a zone with one offset at all times the three conditions of the theorem below
  hold for every clock.
\<close>

lemma fixedZone_regular:
  "LocalTime (fixedZone c) (UTC (fixedZone c) t) = t"
  "UTC (fixedZone c) t < UTC (fixedZone c) (t + 7 * msPerDay)"
  by (simp_all add: LocalTime_def UTC_def fixedZone_def msPerDay_def)

text \<open>
  C6 (as amended). In a zone where Monday 00:00:00 of the current week is a local time
  (no change of the clocks skips it: the instant it denotes reads as that local time),
  the Monday at the clock's time of day is an instant of that Monday, and the following
  Monday 00:00:00 denotes a later instant:
  \<open>startOfWeek\<close> is the instant of the local Monday 00:00:00 of the week of \<open>today\<close>,
  on or up to six days before the local day of \<open>today\<close>, and \<open>endOfWeek\<close> the instant of
  the following Monday 00:00:00, seven local days later (which is 169 hours in a week
  in which the clocks go back). A date is within this week exactly when it is at or
  after the first and before the second: the Monday 00:00:00 itself is in, the following
  Monday 00:00:00 is out. The revenue of the week is the sum of the totals of the bills
  dated in that window.
\<close>

theorem week_window:
  assumes "Day (LocalTime z (UTC z (mondayLocal z today + TimeWithinDay (LocalTime z today)))) =
           Day (mondayLocal z today)"
    and "LocalTime z (UTC z (mondayLocal z today)) = mondayLocal z today"
    and "UTC z (mondayLocal z today) < UTC z (mondayLocal z today + 7 * msPerDay)"
  shows "WeekDay (mondayLocal z today) = 1
       \<and> TimeWithinDay (mondayLocal z today) = 0
       \<and> Day (mondayLocal z today) \<le> Day (LocalTime z today)
       \<and> Day (LocalTime z today) < Day (mondayLocal z today) + 7
       \<and> WeekDay (mondayLocal z today + 7 * msPerDay) = 1
       \<and> TimeWithinDay (mondayLocal z today + 7 * msPerDay) = 0
       \<and> startOfWeek z today = UTC z (mondayLocal z today)
       \<and> endOfWeek z today = UTC z (mondayLocal z today + 7 * msPerDay)
       \<and> isWithinThisWeek z today d =
           (UTC z (mondayLocal z today) \<le> d \<and> d < UTC z (mondayLocal z today + 7 * msPerDay))
       \<and> isWithinThisWeek z today (UTC z (mondayLocal z today))
       \<and> \<not> isWithinThisWeek z today (UTC z (mondayLocal z today + 7 * msPerDay))
       \<and> revenueThisWeek z today bs =
           foldl js_add (Num 0)
             (map bill_total
               (filter (\<lambda>b. UTC z (mondayLocal z today) \<le> date b \<and>
                            date b < UTC z (mondayLocal z today + 7 * msPerDay)) bs))"
proof -
  note 1 = mondayLocal_props(1) [of z today] and 2 = mondayLocal_props(2) [of z today]
    and 3 = mondayLocal_props(3) [of z today] and 4 = mondayLocal_props(4) [of z today]
    and 5 = next_monday(1) [of z today] and 6 = next_monday(2) [of z today]
  have 7: "startOfWeek z today = UTC z (mondayLocal z today)"
    using assms(1) by (rule startOfWeek_monday)
  have 8: "endOfWeek z today = UTC z (mondayLocal z today + 7 * msPerDay)"
    using 7 assms(2) by (rule endOfWeek_monday)
  have 9: "isWithinThisWeek z today d =
           (UTC z (mondayLocal z today) \<le> d \<and> d < UTC z (mondayLocal z today + 7 * msPerDay))"
    for d
    by (simp add: isWithinThisWeek_def 7 8)
  have 10: "isWithinThisWeek z today (UTC z (mondayLocal z today))"
    unfolding 9 using assms(3) by simp
  have 11: "\<not> isWithinThisWeek z today (UTC z (mondayLocal z today + 7 * msPerDay))"
    unfolding 9 by simp
  have 12: "revenueThisWeek z today bs =
           foldl js_add (Num 0)
             (map bill_total
               (filter (\<lambda>b. UTC z (mondayLocal z today) \<le> date b \<and>
                            date b < UTC z (mondayLocal z today + 7 * msPerDay)) bs))"
    unfolding revenueThisWeek_def foldl_totals 9 ..
  show ?thesis
    by (intro conjI) (rule 1 2 3 4 5 6 7 8 9 10 11 12)+
qed

text \<open>
  New York, Wednesday 30 October 2024, 12:00 local time: the week starts on Monday 28
  October 00:00 at UTC-4 and ends on Monday 4 November 00:00 at UTC-5, 169 hours later.
  Of three bills, one dated at the start, one on Sunday 3 November at 23:30 local time
  and one at the end, the first two count.
\<close>

theorem week_window_witness:
  "Day (LocalTime newYork (UTC newYork (mondayLocal newYork 1730304000000 +
          TimeWithinDay (LocalTime newYork 1730304000000)))) =
     Day (mondayLocal newYork 1730304000000)
   \<and> LocalTime newYork (UTC newYork (mondayLocal newYork 1730304000000)) =
       mondayLocal newYork 1730304000000
   \<and> UTC newYork (mondayLocal newYork 1730304000000) <
       UTC newYork (mondayLocal newYork 1730304000000 + 7 * msPerDay)
   \<and> startOfWeek newYork 1730304000000 = 1730088000000
   \<and> endOfWeek newYork 1730304000000 = 1730088000000 + 169 * hour
   \<and> isWithinThisWeek newYork 1730304000000 1730088000000
   \<and> isWithinThisWeek newYork 1730304000000 1730694600000
   \<and> \<not> isWithinThisWeek newYork 1730304000000 1730696400000
   \<and> revenueThisWeek newYork 1730304000000
        [(sampleBooking ''m'' 1730088000000)\<lparr>bill_total := Num 5\<rparr>,
         (sampleBooking ''s'' 1730694600000)\<lparr>bill_total := Num 11\<rparr>,
         (sampleBooking ''n'' 1730696400000)\<lparr>bill_total := Num 7\<rparr>] = Num 16"
proof -
  let ?t = "1730304000000 :: int"
  have l: "LocalTime newYork ?t = 1730289600000"
    by (simp add: LocalTime_def newYork_def hour_def)
  have m: "mondayLocal newYork ?t = 1730073600000"
    unfolding mondayLocal_def l by (simp add: Day_def WeekDay_def MakeDate_def msPerDay_def)
  have u1: "UTC newYork (1730073600000 + TimeWithinDay 1730289600000) = 1730131200000"
    by (simp add: UTC_def newYork_def TimeWithinDay_def hour_def msPerDay_def)
  have u: "UTC newYork 1730073600000 = 1730088000000"
    by (simp add: UTC_def newYork_def hour_def)
  have e: "UTC newYork (1730073600000 + 7 * msPerDay) = 1730696400000"
    by (simp add: UTC_def newYork_def hour_def msPerDay_def)
  have h1: "Day (LocalTime newYork (UTC newYork (mondayLocal newYork ?t +
              TimeWithinDay (LocalTime newYork ?t)))) = Day (mondayLocal newYork ?t)"
    unfolding l m u1 by (simp add: LocalTime_def newYork_def Day_def hour_def msPerDay_def)
  have h2: "LocalTime newYork (UTC newYork (mondayLocal newYork ?t)) = mondayLocal newYork ?t"
    unfolding m u by (simp add: LocalTime_def newYork_def hour_def)
  have h3: "UTC newYork (mondayLocal newYork ?t) <
            UTC newYork (mondayLocal newYork ?t + 7 * msPerDay)"
    unfolding m u e by simp
  note th = week_window [OF h1 h2 h3, unfolded m u e]
  have s: "startOfWeek newYork ?t = 1730088000000"
    using th [of 0 "[]"] by blast
  have w: "endOfWeek newYork ?t = 1730088000000 + 169 * hour"
    using th [of 0 "[]"] by (simp add: hour_def)
  have a: "isWithinThisWeek newYork ?t 1730088000000"
    using th [of 0 "[]"] by blast
  have b: "isWithinThisWeek newYork ?t 1730694600000"
    using th [of 1730694600000 "[]"] by simp
  have c: "\<not> isWithinThisWeek newYork ?t 1730696400000"
    using th [of 0 "[]"] by blast
  have five: "toDouble 5 = Num 5" and sixteen: "toDouble 16 = Num 16"
    by (rule toDouble_whole [of _ 5] toDouble_whole [of _ 16]; simp)+
  have r: "revenueThisWeek newYork ?t
        [(sampleBooking ''m'' 1730088000000)\<lparr>bill_total := Num 5\<rparr>,
         (sampleBooking ''s'' 1730694600000)\<lparr>bill_total := Num 11\<rparr>,
         (sampleBooking ''n'' 1730696400000)\<lparr>bill_total := Num 7\<rparr>] = Num 16"
    using th [of 0 "[(sampleBooking ''m'' 1730088000000)\<lparr>bill_total := Num 5\<rparr>,
         (sampleBooking ''s'' 1730694600000)\<lparr>bill_total := Num 11\<rparr>,
         (sampleBooking ''n'' 1730696400000)\<lparr>bill_total := Num 7\<rparr>]"]
    by (simp add: sampleBooking_def five sixteen)
  show ?thesis
    by (intro conjI) (rule h1 h2 h3 s w a b c r)+
qed

text \<open>
  C6 as stated fails in a week whose Monday 00:00:00 is skipped by a change of the
  clocks. In Tehran on Wednesday 24 March 2021, 12:00 local time, \<open>setHours(0, 0, 0, 0)\<close>
  on Monday 22 March gives 01:00, the first instant of that Monday, and \<open>endOfWeek\<close>
  is that time of day seven days on, Monday 29 March 01:00: a bill dated Monday 29
  March 00:30 local time, half an hour after the following Monday 00:00:00, counts in
  the revenue of the week of 22 March.
\<close>

theorem skipped_monday_counterexample:
  "LocalTime tehran 1616571000000 = MakeDate 18710 (MakeTime 12 0 0 0)
   \<and> WeekDay (MakeDate 18710 0) = 3
   \<and> mondayLocal tehran 1616571000000 = MakeDate 18708 0
   \<and> startOfWeek tehran 1616571000000 = 1616358600000
   \<and> LocalTime tehran 1616358600000 = MakeDate 18708 (MakeTime 1 0 0 0)
   \<and> endOfWeek tehran 1616571000000 = 1616963400000
   \<and> LocalTime tehran 1616963400000 = MakeDate 18715 (MakeTime 1 0 0 0)
   \<and> UTC tehran (mondayLocal tehran 1616571000000 + 7 * msPerDay) = 1616959800000
   \<and> LocalTime tehran 1616959800000 = MakeDate 18715 0
   \<and> LocalTime tehran 1616961600000 = MakeDate 18715 (MakeTime 0 30 0 0)
   \<and> UTC tehran (mondayLocal tehran 1616571000000 + 7 * msPerDay) \<le> 1616961600000
   \<and> isWithinThisWeek tehran 1616571000000 1616961600000
   \<and> revenueThisWeek tehran 1616571000000
        [(sampleBooking ''late'' 1616961600000)\<lparr>bill_total := Num 7\<rparr>] = Num 7"
proof -
  let ?t = "1616571000000 :: int"
  have l: "LocalTime tehran ?t = MakeDate 18710 (MakeTime 12 0 0 0)"
    by (simp add: LocalTime_def tehran_def MakeDate_def MakeTime_def msPerDay_def)
  have wd: "WeekDay (MakeDate 18710 0) = 3"
    by (simp add: WeekDay_def Day_def MakeDate_def msPerDay_def)
  have m: "mondayLocal tehran ?t = MakeDate 18708 0"
    by (simp add: mondayLocal_def LocalTime_def tehran_def Day_def WeekDay_def MakeDate_def
        msPerDay_def)
  have s: "startOfWeek tehran ?t = 1616358600000"
    by (simp add: startOfWeek_def setHours_def setDateBy_def getDay_def LocalTime_def UTC_def
        tehran_def Day_def TimeWithinDay_def WeekDay_def MakeDate_def MakeTime_def msPerDay_def)
  have ls: "LocalTime tehran 1616358600000 = MakeDate 18708 (MakeTime 1 0 0 0)"
    by (simp add: LocalTime_def tehran_def MakeDate_def MakeTime_def msPerDay_def)
  have e: "endOfWeek tehran ?t = 1616963400000"
    unfolding endOfWeek_def s
    by (simp add: setDateBy_def LocalTime_def UTC_def tehran_def Day_def TimeWithinDay_def
        MakeDate_def msPerDay_def)
  have le: "LocalTime tehran 1616963400000 = MakeDate 18715 (MakeTime 1 0 0 0)"
    by (simp add: LocalTime_def tehran_def MakeDate_def MakeTime_def msPerDay_def)
  have n: "UTC tehran (mondayLocal tehran ?t + 7 * msPerDay) = 1616959800000"
    unfolding m by (simp add: UTC_def tehran_def MakeDate_def msPerDay_def)
  have ln: "LocalTime tehran 1616959800000 = MakeDate 18715 0"
    by (simp add: LocalTime_def tehran_def MakeDate_def msPerDay_def)
  have lb: "LocalTime tehran 1616961600000 = MakeDate 18715 (MakeTime 0 30 0 0)"
    by (simp add: LocalTime_def tehran_def MakeDate_def MakeTime_def msPerDay_def)
  have after: "UTC tehran (mondayLocal tehran ?t + 7 * msPerDay) \<le> 1616961600000"
    unfolding n by simp
  have w: "isWithinThisWeek tehran ?t 1616961600000"
    by (simp add: isWithinThisWeek_def s e)
  have seven: "toDouble 7 = Num 7"
    by (rule toDouble_whole [of _ 7]; simp)
  have r: "revenueThisWeek tehran ?t
        [(sampleBooking ''late'' 1616961600000)\<lparr>bill_total := Num 7\<rparr>] = Num 7"
    by (simp add: revenueThisWeek_def isWithinThisWeek_def s e sampleBooking_def seven)
  show ?thesis
    by (intro conjI) (rule l wd m s ls e le n ln lb after w r)+
qed

subsection \<open>Backup import\<close>

lemma isArray_iff: "isArray v \<longleftrightarrow> (\<exists>xs. v = Some (JArr xs))"
  by (cases v rule: isArray.cases) simp_all

lemma applyCategories_absent:
  "\<not> isArray (getProp data ''categories'') \<Longrightarrow> applyCategories h data s = s"
  by (auto simp: applyCategories_def isArray_iff split: option.splits json.splits)

lemma applyCategories_array:
  "getProp data ''categories'' = Some (JArr cs) \<Longrightarrow>
   applyCategories h data s = restoreCategories h cs s"
  by (simp add: applyCategories_def)

lemma applySettings_absent:
  "getProp data ''settings'' = None \<Longrightarrow> applySettings h data s = s"
  by (simp add: applySettings_def)

lemma applyCategories_store [simp]:
  "billsStore (applyCategories storeHooks data s) = billsStore s"
  "servicesStore (applyCategories storeHooks data s) = servicesStore s"
  "shopName (applyCategories storeHooks data s) = shopName s"
  "billTheme (applyCategories storeHooks data s) = billTheme s"
  by (simp_all add: applyCategories_def storeHooks_def split: option.splits json.splits)

lemma applySettings_store [simp]:
  "billsStore (applySettings storeHooks data s) = billsStore s"
  "servicesStore (applySettings storeHooks data s) = servicesStore s"
  "categoriesStore (applySettings storeHooks data s) = categoriesStore s"
  by (simp_all add: applySettings_def storeHooks_def Let_def split: option.splits)

lemma handleFileUpload_invalid:
  assumes "\<not> (isArray (getProp data ''bills'') \<and> isArray (getProp data ''services''))"
  shows "handleFileUpload h (Some data) confirmed s =
           (Some (if data = JNull then ReadError else InvalidFile), s)"
proof (cases "data = JNull")
  case True
  then show ?thesis
    by (simp add: handleFileUpload_def)
next
  case False
  from assms have "\<not> (\<exists>bs svs. getProp data ''bills'' = Some (JArr bs) \<and>
                              getProp data ''services'' = Some (JArr svs))"
    by (auto simp: isArray_iff)
  with False show ?thesis
    by (cases data)
       (auto simp: handleFileUpload_def split: option.splits json.splits)
qed

lemma handleFileUpload_valid:
  assumes "getProp data ''bills'' = Some (JArr bs)"
    and "getProp data ''services'' = Some (JArr svs)"
  shows "handleFileUpload h (Some data) confirmed s =
           (if confirmed
            then (Some Restored,
                  applySettings h data
                    (applyCategories h data (restoreServices h svs (restoreBills h bs s))))
            else (None, s))"
proof -
  from assms(1) obtain kvs where "data = JObj kvs"
    by (cases data) simp_all
  with assms show ?thesis
    by (simp add: handleFileUpload_def)
qed

text \<open>
  C8. For any restore and settings functions: a document that does not parse gives an
  alert and the state is returned as it was; so does a parsed document in which \<open>bills\<close>
  or \<open>services\<close> is absent or not an array. A document with both arrays does nothing
  without the user's confirmation; with it, \<open>restoreBills\<close> and \<open>restoreServices\<close> are
  applied to the arrays of the document, then \<open>restoreCategories\<close> if \<open>categories\<close> is
  an array and nothing for categories otherwise, then the settings setters, and nothing
  for settings if the key is absent. With the restore functions of the spec
  the bills and the services of the store are then the arrays of the document, and the
  store changes in no other case.
\<close>

theorem import_backup:
  "handleFileUpload h None confirmed s = (Some ReadError, s)
   \<and> (\<not> (isArray (getProp data ''bills'') \<and> isArray (getProp data ''services'')) \<longrightarrow>
        (\<exists>n. handleFileUpload h (Some data) confirmed s = (Some n, s)))
   \<and> (getProp data ''bills'' = Some (JArr bs) \<and> getProp data ''services'' = Some (JArr svs) \<longrightarrow>
        handleFileUpload h (Some data) False s = (None, s)
        \<and> handleFileUpload h (Some data) True s =
            (Some Restored,
             applySettings h data
               (applyCategories h data (restoreServices h svs (restoreBills h bs s)))))
   \<and> (\<not> isArray (getProp data ''categories'') \<longrightarrow> applyCategories h data s = s)
   \<and> (getProp data ''categories'' = Some (JArr cs) \<longrightarrow>
        applyCategories h data s = restoreCategories h cs s)
   \<and> (getProp data ''settings'' = None \<longrightarrow> applySettings h data s = s)
   \<and> (getProp data ''bills'' = Some (JArr bs) \<and> getProp data ''services'' = Some (JArr svs) \<longrightarrow>
        billsStore (snd (handleFileUpload storeHooks (Some data) True t)) = bs
        \<and> servicesStore (snd (handleFileUpload storeHooks (Some data) True t)) = svs)
   \<and> (snd (handleFileUpload storeHooks parsed confirmed t) \<noteq> t \<longrightarrow>
        confirmed \<and> (\<exists>d. parsed = Some d \<and> isArray (getProp d ''bills'') \<and>
                           isArray (getProp d ''services'')))"
proof (intro conjI impI)
  show "handleFileUpload h None confirmed s = (Some ReadError, s)"
    by (simp add: handleFileUpload_def)
next
  assume "\<not> (isArray (getProp data ''bills'') \<and> isArray (getProp data ''services''))"
  then show "\<exists>n. handleFileUpload h (Some data) confirmed s = (Some n, s)"
    by (simp add: handleFileUpload_invalid)
next
  assume "getProp data ''bills'' = Some (JArr bs) \<and> getProp data ''services'' = Some (JArr svs)"
  then have v: "getProp data ''bills'' = Some (JArr bs)"
    "getProp data ''services'' = Some (JArr svs)"
    by simp_all
  show "handleFileUpload h (Some data) False s = (None, s)"
    by (simp add: handleFileUpload_valid [OF v])
  show "handleFileUpload h (Some data) True s =
            (Some Restored,
             applySettings h data
               (applyCategories h data (restoreServices h svs (restoreBills h bs s))))"
    by (simp add: handleFileUpload_valid [OF v])
  show "billsStore (snd (handleFileUpload storeHooks (Some data) True t)) = bs"
    by (simp add: handleFileUpload_valid [OF v]) (simp add: storeHooks_def)
  show "servicesStore (snd (handleFileUpload storeHooks (Some data) True t)) = svs"
    by (simp add: handleFileUpload_valid [OF v]) (simp add: storeHooks_def)
next
  assume "\<not> isArray (getProp data ''categories'')"
  then show "applyCategories h data s = s"
    by (rule applyCategories_absent)
next
  assume "getProp data ''categories'' = Some (JArr cs)"
  then show "applyCategories h data s = restoreCategories h cs s"
    by (rule applyCategories_array)
next
  assume "getProp data ''settings'' = None"
  then show "applySettings h data s = s"
    by (rule applySettings_absent)
next
  assume changed: "snd (handleFileUpload storeHooks parsed confirmed t) \<noteq> t"
  then obtain d where d: "parsed = Some d"
    by (cases parsed) (simp_all add: handleFileUpload_def)
  have arr: "isArray (getProp d ''bills'') \<and> isArray (getProp d ''services'')"
  proof (rule ccontr)
    assume "\<not> (isArray (getProp d ''bills'') \<and> isArray (getProp d ''services''))"
    then have "snd (handleFileUpload storeHooks (Some d) confirmed t) = t"
      by (simp add: handleFileUpload_invalid)
    with changed d show False by simp
  qed
  then obtain bs' svs' where v: "getProp d ''bills'' = Some (JArr bs')"
    "getProp d ''services'' = Some (JArr svs')"
    by (auto simp: isArray_iff)
  from changed d show "confirmed"
    by (cases confirmed) (simp_all add: handleFileUpload_valid [OF v])
  from d arr show "\<exists>d. parsed = Some d \<and> isArray (getProp d ''bills'') \<and>
                           isArray (getProp d ''services'')"
    by blast
qed

theorem import_backup_witness:
  "handleFileUpload storeHooks (Some backupExample) True storeExample =
     (Some Restored,
      \<lparr>billsStore = [JStr ''bill-1''], servicesStore = [], categoriesStore = [JStr ''cat-1''],
       shopName = JStr ''Orange'', billTheme = JStr ''default''\<rparr>)
   \<and> getProp backupExample ''bills'' = Some (JArr [JStr ''bill-1''])
   \<and> getProp backupExample ''services'' = Some (JArr [])
   \<and> billsStore (snd (handleFileUpload storeHooks (Some backupExample) True storeExample))
       = [JStr ''bill-1'']
   \<and> servicesStore (snd (handleFileUpload storeHooks (Some backupExample) True storeExample)) = []
   \<and> handleFileUpload storeHooks (Some backupExample) False storeExample = (None, storeExample)
   \<and> \<not> isArray (getProp (JObj [(''bills'', JArr [])]) ''services'')
   \<and> snd (handleFileUpload storeHooks (Some (JObj [(''bills'', JArr [])])) True storeExample)
       = storeExample"
proof -
  have b: "getProp backupExample ''bills'' = Some (JArr [JStr ''bill-1''])"
    and sv: "getProp backupExample ''services'' = Some (JArr [])"
    by (simp_all add: backupExample_def)
  have r: "handleFileUpload storeHooks (Some backupExample) True storeExample =
     (Some Restored,
      \<lparr>billsStore = [JStr ''bill-1''], servicesStore = [], categoriesStore = [JStr ''cat-1''],
       shopName = JStr ''Orange'', billTheme = JStr ''default''\<rparr>)"
    by (simp add: handleFileUpload_def backupExample_def storeExample_def applySettings_def
        applyCategories_def storeHooks_def)
  note th = import_backup [where h = storeHooks and s = storeExample and t = storeExample
      and data = backupExample and bs = "[JStr ''bill-1'']" and svs = "[]"
      and confirmed = True and parsed = "Some backupExample" and cs = "[]"]
  from th b sv have 1:
    "billsStore (snd (handleFileUpload storeHooks (Some backupExample) True storeExample))
       = [JStr ''bill-1'']"
    and 2: "servicesStore (snd (handleFileUpload storeHooks (Some backupExample) True storeExample))
       = []"
    and 3: "handleFileUpload storeHooks (Some backupExample) False storeExample
       = (None, storeExample)"
    by blast+
  have n: "\<not> isArray (getProp (JObj [(''bills'', JArr [])]) ''services'')"
    by simp
  with import_backup [where h = storeHooks and s = storeExample and t = storeExample
      and data = "JObj [(''bills'', JArr [])]" and bs = "[]" and svs = "[]"
      and confirmed = True and parsed = None and cs = "[]"]
  have 4: "snd (handleFileUpload storeHooks (Some (JObj [(''bills'', JArr [])])) True storeExample)
       = storeExample"
    by auto
  show ?thesis
    by (intro conjI) (rule r b sv 1 2 3 n 4)+
qed

subsection \<open>Customer statistics\<close>

lemma billsOf_snoc:
  "billsOf trim toLowerCase k (bs @ [b]) =
     (if trim (customerName b) \<noteq> [] \<and> normalizedName trim toLowerCase (customerName b) = k
      then billsOf trim toLowerCase k bs @ [b] else billsOf trim toLowerCase k bs)"
  by (simp add: billsOf_def)

lemma sumOfTotals_snoc: "sumOfTotals (g @ [b]) = js_add (sumOfTotals g) (bill_total b)"
  by (simp add: sumOfTotals_def)

lemma aggregateBill_map_of:
  assumes "\<And>k. map_of m k =
             (if billsOf trim toLowerCase k bs = [] then None
              else Some (groupStats (billsOf trim toLowerCase k bs)))"
  shows "map_of (aggregateBill trim toLowerCase m b) k =
           (if billsOf trim toLowerCase k (bs @ [b]) = [] then None
            else Some (groupStats (billsOf trim toLowerCase k (bs @ [b]))))"
proof (cases "trim (customerName b) = []")
  case True
  then have "billsOf trim toLowerCase k (bs @ [b]) = billsOf trim toLowerCase k bs"
    by (simp add: billsOf_snoc)
  with True assms show ?thesis
    by (simp add: aggregateBill_def)
next
  case False
  define kb where "kb = normalizedName trim toLowerCase (customerName b)"
  have ex: "(case map_of m kb of Some e \<Rightarrow> e
             | None \<Rightarrow> \<lparr>stats_totalSpent = Num 0, visits = []\<rparr>) =
            groupStats (billsOf trim toLowerCase kb bs)"
    by (simp add: assms groupStats_def sumOfTotals_def)
  have agg: "aggregateBill trim toLowerCase m b =
      AList.update kb (groupStats (billsOf trim toLowerCase kb bs @ [b])) m"
    using False unfolding aggregateBill_def Let_def
    by (simp add: ex kb_def [symmetric] normalizedName_def [symmetric])
       (simp add: groupStats_def visitOf_def sumOfTotals_snoc)
  show ?thesis
  proof (cases "k = kb")
    case True
    with False show ?thesis
      by (simp add: agg update_conv' billsOf_snoc kb_def)
  next
    case neq: False
    then have "billsOf trim toLowerCase k (bs @ [b]) = billsOf trim toLowerCase k bs"
      by (auto simp: billsOf_snoc kb_def)
    with neq show ?thesis
      by (simp add: agg update_conv' assms)
  qed
qed

lemma aggregateBill_distinct:
  "distinct (map fst m) \<Longrightarrow> distinct (map fst (aggregateBill trim toLowerCase m b))"
  by (simp add: aggregateBill_def Let_def distinct_update)

lemma statsMap_spec:
  "distinct (map fst (foldl (aggregateBill trim toLowerCase) [] bs)) \<and>
   (\<forall>k. map_of (foldl (aggregateBill trim toLowerCase) [] bs) k =
          (if billsOf trim toLowerCase k bs = [] then None
           else Some (groupStats (billsOf trim toLowerCase k bs))))"
proof (induction bs rule: rev_induct)
  case Nil
  show ?case by (simp add: billsOf_def)
next
  case (snoc b bs)
  then show ?case
    by (simp add: aggregateBill_distinct aggregateBill_map_of)
qed

lemma statsMap_keys:
  "set (map fst (foldl (aggregateBill trim toLowerCase) [] bs)) =
     {k. billsOf trim toLowerCase k bs \<noteq> []}"
proof -
  let ?m = "foldl (aggregateBill trim toLowerCase) [] bs"
  have "set (map fst ?m) = dom (map_of ?m)"
    by (simp add: dom_map_of_conv_image_fst)
  also have "\<dots> = {k. billsOf trim toLowerCase k bs \<noteq> []}"
    using statsMap_spec [of trim toLowerCase bs] by (auto simp: dom_def)
  finally show ?thesis .
qed

lemma sortVisits_newestFirst: "newestFirst (sortVisits vs)"
proof -
  have "sorted (map (\<lambda>v. - visit_date v) (sortVisits vs))"
    by (simp add: sortVisits_def)
  then show ?thesis
    by (simp add: newestFirst_def sorted_map)
qed

lemma lastVisit_sortVisits:
  "lastVisit (sortVisits (map visitOf g)) = (if g = [] then None else Some (Max (date ` set g)))"
proof (cases "g = []")
  case True
  then show ?thesis
    by (simp add: lastVisit_def sortVisits_def)
next
  case False
  define vs where "vs = sortVisits (map visitOf g)"
  have set_vs: "set vs = visitOf ` set g"
    by (simp add: vs_def sortVisits_def)
  with False obtain v rest where vs: "vs = v # rest"
    by (cases vs) auto
  have "newestFirst vs"
    unfolding vs_def by (rule sortVisits_newestFirst)
  then have top: "\<forall>x\<in>set vs. visit_date x \<le> visit_date v"
    by (auto simp: vs newestFirst_def)
  have dates: "visit_date ` set vs = date ` set g"
    unfolding set_vs by (auto simp: visitOf_def image_iff)
  have "Max (date ` set g) = visit_date v"
  proof (rule Max_eqI)
    show "finite (date ` set g)" by simp
    show "visit_date v \<in> date ` set g"
      unfolding dates [symmetric] by (simp add: vs)
    fix y assume "y \<in> date ` set g"
    then have "y \<in> visit_date ` set vs"
      by (simp add: dates)
    with top show "y \<le> visit_date v"
      by auto
  qed
  with False show ?thesis
    by (simp add: vs_def [symmetric] vs lastVisit_def)
qed

lemma manualStat_spec:
  "manualStat trim toLowerCase (foldl (aggregateBill trim toLowerCase) [] bs) c =
     profileStat trim toLowerCase bs c"
proof -
  define k where "k = normalizedName trim toLowerCase (customer_name c)"
  have m: "map_of (foldl (aggregateBill trim toLowerCase) [] bs) k =
           (if billsOf trim toLowerCase k bs = [] then None
            else Some (groupStats (billsOf trim toLowerCase k bs)))"
    using statsMap_spec [of trim toLowerCase bs] by simp
  show ?thesis
  proof (cases "billsOf trim toLowerCase k bs = []")
    case True
    with m show ?thesis
      by (simp add: manualStat_def profileStat_def statOfGroup_def Let_def
          normalizedName_def [symmetric] k_def [symmetric] lastVisit_def sortVisits_def
          sumOfTotals_def)
  next
    case False
    with m show ?thesis
      by (simp add: manualStat_def profileStat_def statOfGroup_def Let_def
          normalizedName_def [symmetric] k_def [symmetric] groupStats_def
          lastVisit_sortVisits)
         (simp add: sortVisits_def)
  qed
qed

lemma billOnlyStat_spec:
  assumes "billsOf trim toLowerCase k bs \<noteq> []"
  shows "billOnlyStat toLowerCase bs (foldl (aggregateBill trim toLowerCase) [] bs) k =
           [billOnlyGroupStat trim toLowerCase bs k]"
proof -
  have "map_of (foldl (aggregateBill trim toLowerCase) [] bs) k =
          Some (groupStats (billsOf trim toLowerCase k bs))"
    using statsMap_spec [of trim toLowerCase bs] assms by simp
  with assms show ?thesis
    by (simp add: billOnlyStat_def billOnlyGroupStat_def statOfGroup_def Let_def groupStats_def
        lastVisit_sortVisits)
       (simp add: sortVisits_def)
qed

lemma anna_names:
  "asciiTrim ''Anna '' = ''Anna''" "asciiTrim ''anna'' = ''anna''"
  "asciiLowerCase ''Anna'' = ''anna''" "asciiLowerCase ''anna'' = ''anna''"
  by code_simp+

lemma concat_map_singletons:
  "(\<And>x. x \<in> set xs \<Longrightarrow> f x = [g x]) \<Longrightarrow> concat (map f xs) = map g xs"
  by (induction xs) simp_all

lemma remainingNames_set:
  "set (remainingNames trim toLowerCase bs customers) =
     {k. billsOf trim toLowerCase k bs \<noteq> [] \<and>
         k \<notin> normalizedName trim toLowerCase ` customer_name ` set customers}"
  unfolding remainingNames_def set_filter statsMap_keys by auto

lemma remainingNames_distinct: "distinct (remainingNames trim toLowerCase bs customers)"
  unfolding remainingNames_def using statsMap_spec [of trim toLowerCase bs] by simp

lemma insertBy_set: "set (insertBy cmp x xs) = insert x (set xs)"
  by (induction xs) auto

lemma insertBy_length: "length (insertBy cmp x xs) = Suc (length xs)"
  by (induction xs) simp_all

lemma Array_sort_set: "set (Array_sort cmp xs) = set xs"
  unfolding Array_sort_def by (induction xs) (simp_all add: insertBy_set)

lemma Array_sort_length: "length (Array_sort cmp xs) = length xs"
  unfolding Array_sort_def by (induction xs) (simp_all add: insertBy_length)

lemma customerStats_spec:
  "customerStats trim toLowerCase bs customers =
     Array_sort byTotalSpent
       (map (profileStat trim toLowerCase bs) customers @
        map (billOnlyGroupStat trim toLowerCase bs) (remainingNames trim toLowerCase bs customers))"
proof -
  let ?m = "foldl (aggregateBill trim toLowerCase) [] bs"
  let ?ks = "remainingNames trim toLowerCase bs customers"
  have b: "concat (map (billOnlyStat toLowerCase bs ?m) ?ks) =
        map (billOnlyGroupStat trim toLowerCase bs) ?ks"
  proof (rule concat_map_singletons)
    fix k assume "k \<in> set ?ks"
    then have "billsOf trim toLowerCase k bs \<noteq> []"
      by (simp add: remainingNames_set)
    then show "billOnlyStat toLowerCase bs ?m k = [billOnlyGroupStat trim toLowerCase bs k]"
      by (rule billOnlyStat_spec)
  qed
  have a: "map (manualStat trim toLowerCase ?m) customers =
           map (profileStat trim toLowerCase bs) customers"
    by (simp add: manualStat_spec)
  have "customerStats trim toLowerCase bs customers =
          Array_sort byTotalSpent
            (map (manualStat trim toLowerCase ?m) customers @
             concat (map (billOnlyStat toLowerCase bs ?m) ?ks))"
    by (simp add: customerStats_def Let_def remainingNames_def normalizedName_def)
  then show ?thesis
    unfolding a b .
qed

lemma statOfGroup_history:
  "newestFirst (visitHistory (statOfGroup i n p d g)) \<and>
   lastVisitDate (statOfGroup i n p d g) = lastVisit (visitHistory (statOfGroup i n p d g)) \<and>
   visitCount (statOfGroup i n p d g) = length (visitHistory (statOfGroup i n p d g))"
  by (simp add: statOfGroup_def sortVisits_newestFirst lastVisit_sortVisits)
     (simp add: sortVisits_def)

text \<open>
  C7. For whatever functions \<open>trim\<close> and \<open>toLowerCase\<close> the engine provides, the
  statistics are, in some order: for each manual customer the statistics of the bills
  whose trimmed, lower-cased customer name equals the customer's (carrying the
  customer's id, name, phone and date of birth; total 0, no visit, no last visit and an
  empty history when there is no such bill), and for each normalised name of a bill
  that is not blank after trimming and matches no manual customer one entry without id.
  An entry has the sum of the totals of its bills, their number, the latest of their
  dates, and their visits sorted newest first. Two bills for \<open>Anna \<close> and \<open>anna\<close>,
  which \<open>trim\<close> and \<open>toLowerCase\<close> both take to \<open>anna\<close>, give one entry with two
  visits and the sum of both totals.
\<close>

theorem customerStats_groups:
  "set (customerStats trim toLowerCase bs customers) =
     profileStat trim toLowerCase bs ` set customers \<union>
     billOnlyGroupStat trim toLowerCase bs `
       {k. billsOf trim toLowerCase k bs \<noteq> [] \<and>
           k \<notin> normalizedName trim toLowerCase ` customer_name ` set customers}
   \<and> length (customerStats trim toLowerCase bs customers) =
       length customers +
       card {k. billsOf trim toLowerCase k bs \<noteq> [] \<and>
                k \<notin> normalizedName trim toLowerCase ` customer_name ` set customers}
   \<and> (\<forall>st\<in>set (customerStats trim toLowerCase bs customers).
         newestFirst (visitHistory st) \<and> lastVisitDate st = lastVisit (visitHistory st) \<and>
         visitCount st = length (visitHistory st))
   \<and> (\<forall>c\<in>set customers. \<exists>st\<in>set (customerStats trim toLowerCase bs customers).
         stat_id st = Some (customer_id c) \<and> stat_name st = customer_name c \<and>
         stat_phone st = phone c \<and> stat_dob st = dob c \<and>
         totalSpent st =
           sumOfTotals (billsOf trim toLowerCase
             (normalizedName trim toLowerCase (customer_name c)) bs) \<and>
         visitCount st =
           length (billsOf trim toLowerCase
             (normalizedName trim toLowerCase (customer_name c)) bs) \<and>
         visitHistory st =
           sortVisits (map visitOf (billsOf trim toLowerCase
             (normalizedName trim toLowerCase (customer_name c)) bs)))
   \<and> (\<forall>c\<in>set customers.
         billsOf trim toLowerCase (normalizedName trim toLowerCase (customer_name c)) bs = [] \<longrightarrow>
         (\<exists>st\<in>set (customerStats trim toLowerCase bs customers).
            stat_id st = Some (customer_id c) \<and> totalSpent st = Num 0 \<and> visitCount st = 0 \<and>
            lastVisitDate st = None \<and> visitHistory st = []))
   \<and> (\<forall>st\<in>set (customerStats trim toLowerCase bs customers). stat_id st = None \<longrightarrow>
         (\<exists>k. k \<in> normalizedName trim toLowerCase ` customerName `
                     {b \<in> set bs. trim (customerName b) \<noteq> []} \<and>
              k \<notin> normalizedName trim toLowerCase ` customer_name ` set customers \<and>
              totalSpent st = sumOfTotals (billsOf trim toLowerCase k bs) \<and>
              visitCount st = length (billsOf trim toLowerCase k bs) \<and>
              visitHistory st = sortVisits (map visitOf (billsOf trim toLowerCase k bs))))
   \<and> (customerName b1 = ''Anna '' \<and> customerName b2 = ''anna'' \<and>
       trim ''Anna '' = ''Anna'' \<and> trim ''anna'' = ''anna'' \<and>
       toLowerCase ''Anna'' = ''anna'' \<and> toLowerCase ''anna'' = ''anna'' \<longrightarrow>
         map visitCount (customerStats trim toLowerCase [b1, b2] []) = [2] \<and>
         map totalSpent (customerStats trim toLowerCase [b1, b2] []) =
           [js_add (js_add (Num 0) (bill_total b1)) (bill_total b2)] \<and>
         map stat_id (customerStats trim toLowerCase [b1, b2] []) = [None])"
proof -
  let ?N = "normalizedName trim toLowerCase"
  let ?B = "billsOf trim toLowerCase"
  let ?K = "{k. ?B k bs \<noteq> [] \<and> k \<notin> ?N ` customer_name ` set customers}"
  let ?C = "customerStats trim toLowerCase bs customers"
  define ks where "ks = remainingNames trim toLowerCase bs customers"
  have eq: "?C = Array_sort byTotalSpent
             (map (profileStat trim toLowerCase bs) customers @
              map (billOnlyGroupStat trim toLowerCase bs) ks)"
    unfolding ks_def by (rule customerStats_spec)
  have dist: "distinct ks"
    unfolding ks_def by (rule remainingNames_distinct)
  have ks: "set ks = ?K"
    unfolding ks_def by (rule remainingNames_set)
  have 1: "set ?C = profileStat trim toLowerCase bs ` set customers \<union>
                    billOnlyGroupStat trim toLowerCase bs ` ?K"
    by (simp add: eq Array_sort_set ks [symmetric])
  have 2: "length ?C = length customers + card ?K"
    by (simp add: eq Array_sort_length ks [symmetric] distinct_card [OF dist])
  have 3: "\<forall>st\<in>set ?C.
         newestFirst (visitHistory st) \<and> lastVisitDate st = lastVisit (visitHistory st) \<and>
         visitCount st = length (visitHistory st)"
    unfolding 1 by (auto simp: profileStat_def billOnlyGroupStat_def statOfGroup_history)
  have 4: "\<forall>c\<in>set customers. \<exists>st\<in>set ?C.
         stat_id st = Some (customer_id c) \<and> stat_name st = customer_name c \<and>
         stat_phone st = phone c \<and> stat_dob st = dob c \<and>
         totalSpent st = sumOfTotals (?B (?N (customer_name c)) bs) \<and>
         visitCount st = length (?B (?N (customer_name c)) bs) \<and>
         visitHistory st = sortVisits (map visitOf (?B (?N (customer_name c)) bs))"
  proof
    fix c assume "c \<in> set customers"
    then have "profileStat trim toLowerCase bs c \<in> set ?C"
      unfolding 1 by simp
    then show "\<exists>st\<in>set ?C.
         stat_id st = Some (customer_id c) \<and> stat_name st = customer_name c \<and>
         stat_phone st = phone c \<and> stat_dob st = dob c \<and>
         totalSpent st = sumOfTotals (?B (?N (customer_name c)) bs) \<and>
         visitCount st = length (?B (?N (customer_name c)) bs) \<and>
         visitHistory st = sortVisits (map visitOf (?B (?N (customer_name c)) bs))"
      by (rule rev_bexI) (simp add: profileStat_def statOfGroup_def)
  qed
  have 5: "\<forall>c\<in>set customers. ?B (?N (customer_name c)) bs = [] \<longrightarrow>
         (\<exists>st\<in>set ?C.
            stat_id st = Some (customer_id c) \<and> totalSpent st = Num 0 \<and> visitCount st = 0 \<and>
            lastVisitDate st = None \<and> visitHistory st = [])"
  proof (intro ballI impI)
    fix c assume "c \<in> set customers" and none: "?B (?N (customer_name c)) bs = []"
    then have "profileStat trim toLowerCase bs c \<in> set ?C"
      unfolding 1 by simp
    then show "\<exists>st\<in>set ?C.
            stat_id st = Some (customer_id c) \<and> totalSpent st = Num 0 \<and> visitCount st = 0 \<and>
            lastVisitDate st = None \<and> visitHistory st = []"
      by (rule rev_bexI)
         (simp add: profileStat_def statOfGroup_def none sumOfTotals_def sortVisits_def)
  qed
  have 6: "\<forall>st\<in>set ?C. stat_id st = None \<longrightarrow>
         (\<exists>k. k \<in> ?N ` customerName ` {b \<in> set bs. trim (customerName b) \<noteq> []} \<and>
              k \<notin> ?N ` customer_name ` set customers \<and>
              totalSpent st = sumOfTotals (?B k bs) \<and>
              visitCount st = length (?B k bs) \<and>
              visitHistory st = sortVisits (map visitOf (?B k bs)))"
  proof (intro ballI impI)
    fix st assume "st \<in> set ?C" and "stat_id st = None"
    then obtain k where k: "k \<in> ?K" and st: "st = billOnlyGroupStat trim toLowerCase bs k"
      unfolding 1 by (auto simp: profileStat_def statOfGroup_def)
    from k have "?B k bs \<noteq> []"
      by simp
    then obtain b where "b \<in> set bs" and "trim (customerName b) \<noteq> []"
      and "?N (customerName b) = k"
      by (auto simp: billsOf_def filter_empty_conv)
    then have "k \<in> ?N ` customerName ` {b \<in> set bs. trim (customerName b) \<noteq> []}"
      by blast
    with k show "\<exists>k. k \<in> ?N ` customerName ` {b \<in> set bs. trim (customerName b) \<noteq> []} \<and>
              k \<notin> ?N ` customer_name ` set customers \<and>
              totalSpent st = sumOfTotals (?B k bs) \<and>
              visitCount st = length (?B k bs) \<and>
              visitHistory st = sortVisits (map visitOf (?B k bs))"
      by (intro exI [of _ k]) (simp add: st billOnlyGroupStat_def statOfGroup_def)
  qed
  have 7: "customerName b1 = ''Anna '' \<and> customerName b2 = ''anna'' \<and>
       trim ''Anna '' = ''Anna'' \<and> trim ''anna'' = ''anna'' \<and>
       toLowerCase ''Anna'' = ''anna'' \<and> toLowerCase ''anna'' = ''anna'' \<longrightarrow>
         map visitCount (customerStats trim toLowerCase [b1, b2] []) = [2] \<and>
         map totalSpent (customerStats trim toLowerCase [b1, b2] []) =
           [js_add (js_add (Num 0) (bill_total b1)) (bill_total b2)] \<and>
         map stat_id (customerStats trim toLowerCase [b1, b2] []) = [None]"
    by (simp add: customerStats_def aggregateBill_def billOnlyStat_def Let_def sortVisits_def
        Array_sort_def)
  show ?thesis
    by (intro conjI) (rule 1 2 3 4 5 6 7)+
qed

theorem customerStats_groups_witness:
  "customerName (annaBills ! 0) = ''Anna '' \<and> customerName (annaBills ! 1) = ''anna''
   \<and> asciiTrim ''Anna '' = ''Anna'' \<and> asciiTrim ''anna'' = ''anna''
   \<and> asciiLowerCase ''Anna'' = ''anna'' \<and> asciiLowerCase ''anna'' = ''anna''
   \<and> map visitCount (customerStats asciiTrim asciiLowerCase [annaBills ! 0, annaBills ! 1] []) = [2]
   \<and> map totalSpent (customerStats asciiTrim asciiLowerCase [annaBills ! 0, annaBills ! 1] [])
       = [Num 200000]
   \<and> map stat_id (customerStats asciiTrim asciiLowerCase [annaBills ! 0, annaBills ! 1] [])
       = [None]"
proof -
  have n: "customerName (annaBills ! 0) = ''Anna ''" "customerName (annaBills ! 1) = ''anna''"
    by (simp_all add: annaBills_def)
  have "toDouble 150000 = Num 150000" and "toDouble 200000 = Num 200000"
    by (rule toDouble_whole [of _ 150000] toDouble_whole [of _ 200000]; simp)+
  then have t: "js_add (js_add (Num 0) (bill_total (annaBills ! 0))) (bill_total (annaBills ! 1)) =
           Num 200000"
    by (simp add: annaBills_def)
  from customerStats_groups [of asciiTrim asciiLowerCase "[]" "[]" "annaBills ! 0" "annaBills ! 1"]
    n anna_names
  have "map visitCount (customerStats asciiTrim asciiLowerCase [annaBills ! 0, annaBills ! 1] [])
          = [2]"
    and "map totalSpent (customerStats asciiTrim asciiLowerCase [annaBills ! 0, annaBills ! 1] []) =
           [js_add (js_add (Num 0) (bill_total (annaBills ! 0))) (bill_total (annaBills ! 1))]"
    and "map stat_id (customerStats asciiTrim asciiLowerCase [annaBills ! 0, annaBills ! 1] [])
          = [None]"
    by blast+
  with n t anna_names show ?thesis
    by simp
qed

end
